theory Spec2Isabelle
  imports Main "HOL-Library.Multiset"
begin

section \<open>Phonetics common feature finder: the program\<close>

text \<open>
  The source is one C file, \<^verbatim>\<open>commonFeatureFinder.c\<close>: eight \<^verbatim>\<open>void\<close> functions that
  each walk \<^verbatim>\<open>intArray[0 .. num-1]\<close>, and \<^verbatim>\<open>main\<close>.

  A phoneme code is a C \<^verbatim>\<open>int\<close>; the functions only compare it with constants, so it is
  an \<^typ>\<open>int\<close> here. The labels are C strings in \<^verbatim>\<open>char[20]\<close> buffers (the longest
  label has 15 characters), compared with \<^verbatim>\<open>strcmp\<close> and copied with \<^verbatim>\<open>strcpy\<close>: they
  are \<^typ>\<open>string\<close>s, and the empty string is the source's sentinel for "no sub-label".

  Every function leaves in one of three ways: the \<^verbatim>\<open>return\<close> under the comment
  \<^verbatim>\<open>// Out of range\<close>, a \<^verbatim>\<open>return\<close> in the comparison part (the labels do not
  match), or the \<^verbatim>\<open>printf\<close> of the common label after the loop. The two silent
  returns are the two errors below; \<open>Inr label\<close> is the label handed to \<^verbatim>\<open>printf\<close>.
\<close>

datatype error = OutOfRangeCode | NoCommonFeature

subsection \<open>Consonants\<close>

text \<open>The \<^verbatim>\<open>if\<close>/\<^verbatim>\<open>else if\<close> chain at the head of the loop body of
  \<^verbatim>\<open>conPlaceArticulation\<close>: the pair \<open>(place, subPlace)\<close> it stores, or \<open>None\<close> where it
  returns.\<close>

definition conPlace_lookup :: "int \<Rightarrow> (string \<times> string) option" where
  "conPlace_lookup c =
    (if c = 1 \<or> c = 2 \<or> c = 3 then Some (''Labial'', ''Bilabial'')
     else if c = 4 \<or> c = 5 then Some (''Labial'', ''Labiodental'')
     else if c = 6 \<or> c = 7 then Some (''Dental'', '''')
     else if c = 8 \<or> c = 9 \<or> c = 10 \<or> c = 11 \<or> c = 12 \<or> c = 13 \<or> c = 14
       then Some (''Alveolar'', '''')
     else if c = 15 \<or> c = 16 \<or> c = 17 \<or> c = 18 then Some (''Alveopalatal'', '''')
     else if c = 19 then Some (''Palatal'', '''')
     else if c = 20 \<or> c = 21 \<or> c = 22 then Some (''Velar'', '''')
     else if c = 23 then Some (''Labial'', ''Velar'')
     else if c = 24 \<or> c = 25 then Some (''Glottal'', '''')
     else None)"

text \<open>The \<^verbatim>\<open>while (i < num)\<close> loop of \<^verbatim>\<open>conPlaceArticulation\<close>. The list holds the
  codes \<^verbatim>\<open>intArray[i .. num-1]\<close> still to be visited.\<close>

fun conPlace_loop :: "int list \<Rightarrow> nat \<Rightarrow> string \<Rightarrow> string \<Rightarrow> error + string" where
  "conPlace_loop [] i previousPlace previousSubPlace = Inr previousPlace"
| "conPlace_loop (c # rest) i previousPlace previousSubPlace =
    (case conPlace_lookup c of
       None \<Rightarrow> Inl OutOfRangeCode
     | Some (place, subPlace) \<Rightarrow>
         if i = 0 then conPlace_loop rest (i + 1) place subPlace
         else if place = previousPlace then conPlace_loop rest (i + 1) place ''''
         else if previousSubPlace \<noteq> '''' \<and> subPlace \<noteq> '''' then
           (if subPlace = previousSubPlace then conPlace_loop rest (i + 1) subPlace ''''
            else Inl NoCommonFeature)
         else if previousSubPlace \<noteq> '''' then
           (if place = previousSubPlace then conPlace_loop rest (i + 1) place ''''
            else Inl NoCommonFeature)
         else if subPlace \<noteq> '''' then
           (if subPlace = previousPlace then conPlace_loop rest (i + 1) subPlace ''''
            else Inl NoCommonFeature)
         else Inl NoCommonFeature)"

definition conPlaceArticulation :: "int list \<Rightarrow> error + string" where
  "conPlaceArticulation codes = conPlace_loop codes 0 '''' ''''"

definition conManner_lookup :: "int \<Rightarrow> (string \<times> string) option" where
  "conManner_lookup c =
    (if c = 1 \<or> c = 2 \<or> c = 8 \<or> c = 9 \<or> c = 20 \<or> c = 21 \<or> c = 24
       then Some (''Stop'', '''')
     else if c = 3 \<or> c = 10 \<or> c = 22 then Some (''Nasal'', ''Stop'')
     else if c = 4 \<or> c = 5 \<or> c = 6 \<or> c = 7 \<or> c = 11 \<or> c = 12 \<or> c = 15 \<or> c = 16 \<or> c = 25
       then Some (''Fricative'', '''')
     else if c = 17 \<or> c = 18 then Some (''Affricate'', '''')
     else if c = 13 \<or> c = 14 then Some (''Liquid'', '''')
     else if c = 19 \<or> c = 23 then Some (''Glide'', '''')
     else None)"

fun conManner_loop :: "int list \<Rightarrow> nat \<Rightarrow> string \<Rightarrow> string \<Rightarrow> error + string" where
  "conManner_loop [] i previousManner previousSubManner = Inr previousManner"
| "conManner_loop (c # rest) i previousManner previousSubManner =
    (case conManner_lookup c of
       None \<Rightarrow> Inl OutOfRangeCode
     | Some (manner, subManner) \<Rightarrow>
         if i = 0 then conManner_loop rest (i + 1) manner subManner
         else if manner = previousManner then conManner_loop rest (i + 1) manner ''''
         else if previousSubManner \<noteq> '''' \<and> subManner \<noteq> '''' then
           (if subManner = previousSubManner then conManner_loop rest (i + 1) subManner ''''
            else Inl NoCommonFeature)
         else if previousSubManner \<noteq> '''' then
           (if manner = previousSubManner then conManner_loop rest (i + 1) manner ''''
            else Inl NoCommonFeature)
         else if subManner \<noteq> '''' then
           (if subManner = previousManner then conManner_loop rest (i + 1) subManner ''''
            else Inl NoCommonFeature)
         else Inl NoCommonFeature)"

definition conMannerArticulation :: "int list \<Rightarrow> error + string" where
  "conMannerArticulation codes = conManner_loop codes 0 '''' ''''"

definition conVoicing_lookup :: "int \<Rightarrow> string option" where
  "conVoicing_lookup c =
    (if c = 1 \<or> c = 4 \<or> c = 6 \<or> c = 8 \<or> c = 11 \<or> c = 15 \<or> c = 17 \<or> c = 20 \<or> c = 24 \<or> c = 25
       then Some ''Voiceless''
     else if c = 2 \<or> c = 3 \<or> c = 5 \<or> c = 7 \<or> c = 9 \<or> c = 10 \<or> c = 12 \<or> c = 13 \<or> c = 14 \<or>
             c = 16 \<or> c = 18 \<or> c = 19 \<or> c = 21 \<or> c = 22 \<or> c = 23
       then Some ''Voiced''
     else None)"

fun conVoicing_loop :: "int list \<Rightarrow> nat \<Rightarrow> string \<Rightarrow> error + string" where
  "conVoicing_loop [] i previousVoice = Inr previousVoice"
| "conVoicing_loop (c # rest) i previousVoice =
    (case conVoicing_lookup c of
       None \<Rightarrow> Inl OutOfRangeCode
     | Some voice \<Rightarrow>
         if i = 0 then conVoicing_loop rest (i + 1) voice
         else if voice = previousVoice then conVoicing_loop rest (i + 1) voice
         else Inl NoCommonFeature)"

definition conVoicing :: "int list \<Rightarrow> error + string" where
  "conVoicing codes = conVoicing_loop codes 0 ''''"

subsection \<open>Vowels\<close>

definition vowHeight_lookup :: "int \<Rightarrow> string option" where
  "vowHeight_lookup c =
    (if c = 1 \<or> c = 2 \<or> c = 3 \<or> c = 4 then Some ''High''
     else if c = 5 \<or> c = 6 \<or> c = 7 \<or> c = 8 \<or> c = 9 \<or> c = 10 \<or> c = 11 then Some ''Mid''
     else if c = 12 \<or> c = 13 \<or> c = 14 \<or> c = 15 then Some ''Low''
     else None)"

fun vowHeight_loop :: "int list \<Rightarrow> nat \<Rightarrow> string \<Rightarrow> error + string" where
  "vowHeight_loop [] i previousHeight = Inr previousHeight"
| "vowHeight_loop (c # rest) i previousHeight =
    (case vowHeight_lookup c of
       None \<Rightarrow> Inl OutOfRangeCode
     | Some height \<Rightarrow>
         if i = 0 then vowHeight_loop rest (i + 1) height
         else if height = previousHeight then vowHeight_loop rest (i + 1) height
         else Inl NoCommonFeature)"

definition vowHeight :: "int list \<Rightarrow> error + string" where
  "vowHeight codes = vowHeight_loop codes 0 ''''"

definition vowBackness_lookup :: "int \<Rightarrow> string option" where
  "vowBackness_lookup c =
    (if c = 1 \<or> c = 2 \<or> c = 5 \<or> c = 6 \<or> c = 12 then Some ''Front''
     else if c = 7 \<or> c = 8 \<or> c = 13 \<or> c = 14 then Some ''Central''
     else if c = 3 \<or> c = 4 \<or> c = 9 \<or> c = 10 \<or> c = 11 \<or> c = 15 then Some ''Back''
     else None)"

fun vowBackness_loop :: "int list \<Rightarrow> nat \<Rightarrow> string \<Rightarrow> error + string" where
  "vowBackness_loop [] i previousBackness = Inr previousBackness"
| "vowBackness_loop (c # rest) i previousBackness =
    (case vowBackness_lookup c of
       None \<Rightarrow> Inl OutOfRangeCode
     | Some backness \<Rightarrow>
         if i = 0 then vowBackness_loop rest (i + 1) backness
         else if backness = previousBackness then vowBackness_loop rest (i + 1) backness
         else Inl NoCommonFeature)"

definition vowBackness :: "int list \<Rightarrow> error + string" where
  "vowBackness codes = vowBackness_loop codes 0 ''''"

definition vowTenseness_lookup :: "int \<Rightarrow> string option" where
  "vowTenseness_lookup c =
    (if c = 1 \<or> c = 3 \<or> c = 5 \<or> c = 9 \<or> c = 10 \<or> c = 13 \<or> c = 14 \<or> c = 15 then Some ''Tensed''
     else if c = 2 \<or> c = 4 \<or> c = 6 \<or> c = 7 \<or> c = 8 \<or> c = 11 \<or> c = 12 then Some ''Laxed''
     else None)"

fun vowTenseness_loop :: "int list \<Rightarrow> nat \<Rightarrow> string \<Rightarrow> error + string" where
  "vowTenseness_loop [] i previousTenseness = Inr previousTenseness"
| "vowTenseness_loop (c # rest) i previousTenseness =
    (case vowTenseness_lookup c of
       None \<Rightarrow> Inl OutOfRangeCode
     | Some tenseness \<Rightarrow>
         if i = 0 then vowTenseness_loop rest (i + 1) tenseness
         else if tenseness = previousTenseness then vowTenseness_loop rest (i + 1) tenseness
         else Inl NoCommonFeature)"

definition vowTenseness :: "int list \<Rightarrow> error + string" where
  "vowTenseness codes = vowTenseness_loop codes 0 ''''"

definition vowRoundedness_lookup :: "int \<Rightarrow> string option" where
  "vowRoundedness_lookup c =
    (if c = 3 \<or> c = 4 \<or> c = 9 \<or> c = 10 \<or> c = 11 then Some ''Rounded''
     else if c = 1 \<or> c = 2 \<or> c = 5 \<or> c = 6 \<or> c = 7 \<or> c = 8 \<or> c = 12 \<or> c = 13 \<or> c = 14 \<or> c = 15
       then Some ''Unrounded''
     else None)"

fun vowRoundedness_loop :: "int list \<Rightarrow> nat \<Rightarrow> string \<Rightarrow> error + string" where
  "vowRoundedness_loop [] i previousRoundedness = Inr previousRoundedness"
| "vowRoundedness_loop (c # rest) i previousRoundedness =
    (case vowRoundedness_lookup c of
       None \<Rightarrow> Inl OutOfRangeCode
     | Some roundedness \<Rightarrow>
         if i = 0 then vowRoundedness_loop rest (i + 1) roundedness
         else if roundedness = previousRoundedness
           then vowRoundedness_loop rest (i + 1) roundedness
         else Inl NoCommonFeature)"

definition vowRoundedness :: "int list \<Rightarrow> error + string" where
  "vowRoundedness codes = vowRoundedness_loop codes 0 ''''"

definition vowDiphthong_lookup :: "int \<Rightarrow> (string \<times> string) option" where
  "vowDiphthong_lookup c =
    (if c = 1 \<or> c = 2 \<or> c = 3 \<or> c = 4 \<or> c = 6 \<or> c = 7 \<or> c = 8 \<or> c = 11 \<or> c = 12 \<or> c = 15
       then Some (''Simple Vowel'', '''')
     else if c = 10 \<or> c = 13 \<or> c = 14 then Some (''Diphthong'', ''Major Diphthong'')
     else if c = 5 \<or> c = 9 then Some (''Diphthong'', ''Minor Diphthong'')
     else None)"

fun vowDiphthong_loop :: "int list \<Rightarrow> nat \<Rightarrow> string \<Rightarrow> string \<Rightarrow> error + string" where
  "vowDiphthong_loop [] i previousDiphthong previousSubDiphthong = Inr previousDiphthong"
| "vowDiphthong_loop (c # rest) i previousDiphthong previousSubDiphthong =
    (case vowDiphthong_lookup c of
       None \<Rightarrow> Inl OutOfRangeCode
     | Some (diphthong, subDiphthong) \<Rightarrow>
         if i = 0 then vowDiphthong_loop rest (i + 1) diphthong subDiphthong
         else if diphthong = previousDiphthong
           then vowDiphthong_loop rest (i + 1) diphthong ''''
         else if previousSubDiphthong \<noteq> '''' \<and> subDiphthong \<noteq> '''' then
           (if subDiphthong = previousSubDiphthong
              then vowDiphthong_loop rest (i + 1) subDiphthong ''''
            else Inl NoCommonFeature)
         else if previousSubDiphthong \<noteq> '''' then
           (if diphthong = previousSubDiphthong
              then vowDiphthong_loop rest (i + 1) diphthong ''''
            else Inl NoCommonFeature)
         else if subDiphthong \<noteq> '''' then
           (if subDiphthong = previousDiphthong
              then vowDiphthong_loop rest (i + 1) subDiphthong ''''
            else Inl NoCommonFeature)
         else Inl NoCommonFeature)"

definition vowDiphthong :: "int list \<Rightarrow> error + string" where
  "vowDiphthong codes = vowDiphthong_loop codes 0 '''' ''''"

subsection \<open>The program's entry point\<close>

text \<open>
  \<^verbatim>\<open>main\<close> reads a count \<^verbatim>\<open>num\<close>, then \<^verbatim>\<open>num\<close> codes into \<^verbatim>\<open>int intArray[7]\<close>, then
  the selector \<^verbatim>\<open>consonantVowel\<close>. The values typed in are parameters of the model:
  \<open>num\<close>, \<open>entered i\<close> (the answer to the prompt for \<^verbatim>\<open>intArray[i]\<close>) and
  \<open>consonantVowel\<close>. The array is a list of length 7 whose initial content \<open>intArray\<close>
  is whatever the stack held.

  The input loop \<^verbatim>\<open>for (int i = 0; i < num; i++) scanf("%d", &intArray[i])\<close> compares
  \<open>i\<close> with \<open>num\<close> only. A store at an index outside the array is undefined behaviour
  in C; the model stops there with the offending index.
\<close>

datatype fault = WriteOutOfBounds nat

function read_codes :: "(nat \<Rightarrow> int) \<Rightarrow> int \<Rightarrow> nat \<Rightarrow> int list \<Rightarrow> fault + int list" where
  "read_codes entered num i intArray =
    (if int i < num then
       (if i < length intArray then read_codes entered num (i + 1) (intArray[i := entered i])
        else Inl (WriteOutOfBounds i))
     else Inr intArray)"
  by pat_completeness auto
termination
  by (relation "measure (\<lambda>(entered, num, i, intArray). nat (num - int i))") auto

text \<open>Each of the eight functions ends with one \<^verbatim>\<open>printf\<close> of a caption and the common
  label, and prints nothing when it returned early.\<close>

definition report :: "string \<Rightarrow> error + string \<Rightarrow> string list" where
  "report caption result = (case result of Inr label \<Rightarrow> [caption @ label] | Inl e \<Rightarrow> [])"

text \<open>The part of \<^verbatim>\<open>main\<close> after the selector has been read: the lines it prints, in
  order. \<open>codes\<close> is \<^verbatim>\<open>intArray[0 .. num-1]\<close>.\<close>

definition run_selected :: "int \<Rightarrow> int list \<Rightarrow> string list" where
  "run_selected consonantVowel codes =
    (if consonantVowel = 0 then
       report ''The common place of articulation is: '' (conPlaceArticulation codes) @
       report ''The common manner of articulation is: '' (conMannerArticulation codes) @
       report ''The common voicing is: '' (conVoicing codes) @
       [''========END========'']
     else if consonantVowel = 1 then
       report ''The common height of the tongue is: '' (vowHeight codes) @
       report ''The common backness of the tongue is: '' (vowBackness codes) @
       report ''The common tenseness of the vocal tract is: '' (vowTenseness codes) @
       report ''The common roundedness of the lips is: '' (vowRoundedness codes) @
       report ''The common simple/complex vowel is: '' (vowDiphthong codes) @
       [''========END========'']
     else [''Invalid Input''])"

definition main :: "int list \<Rightarrow> int \<Rightarrow> (nat \<Rightarrow> int) \<Rightarrow> int \<Rightarrow> fault + string list" where
  "main intArray num entered consonantVowel =
    (case read_codes entered num 0 intArray of
       Inl f \<Rightarrow> Inl f
     | Inr intArray' \<Rightarrow> Inr (run_selected consonantVowel (take (nat num) intArray')))"

section \<open>The specification's data model and generic reducer\<close>

text \<open>Section 3 of the specification: a feature value is a primary label with an optional
  secondary label, and a feature table maps the codes of a dimension to feature values.\<close>

type_synonym FeatureValue = "string \<times> string option"
type_synonym FeatureTable = "int \<Rightarrow> FeatureValue option"

datatype dimension =
  PlaceOfArticulation | MannerOfArticulation | Voicing
  | Height | Backness | Tenseness | Roundedness | DiphthongStatus

subsection \<open>Section 4.1: the feature tables as the specification lists them\<close>

text \<open>A table is written as the specification writes it: rows of a feature value and the
  codes that carry it.\<close>

definition table_of_rows :: "(FeatureValue \<times> int list) list \<Rightarrow> FeatureTable" where
  "table_of_rows rows c = map_option fst (find (\<lambda>row. c \<in> set (snd row)) rows)"

fun spec_table :: "dimension \<Rightarrow> FeatureTable" where
  "spec_table PlaceOfArticulation = table_of_rows
    [((''Labial'', Some ''Bilabial''), [1, 2, 3]),
     ((''Labial'', Some ''Labiodental''), [4, 5]),
     ((''Dental'', None), [6, 7]),
     ((''Alveolar'', None), [8, 9, 10, 11, 12, 13, 14]),
     ((''Alveopalatal'', None), [15, 16, 17, 18]),
     ((''Palatal'', None), [19]),
     ((''Velar'', None), [20, 21, 22]),
     ((''Labial'', Some ''Velar''), [23]),
     ((''Glottal'', None), [24, 25])]"
| "spec_table MannerOfArticulation = table_of_rows
    [((''Stop'', None), [1, 2, 8, 9, 20, 21, 24]),
     ((''Nasal'', Some ''Stop''), [3, 10, 22]),
     ((''Fricative'', None), [4, 5, 6, 7, 11, 12, 15, 16, 25]),
     ((''Affricate'', None), [17, 18]),
     ((''Liquid'', None), [13, 14]),
     ((''Glide'', None), [19, 23])]"
| "spec_table Voicing = table_of_rows
    [((''Voiceless'', None), [1, 4, 6, 8, 11, 15, 17, 20, 24, 25]),
     ((''Voiced'', None), [2, 3, 5, 7, 9, 10, 12, 13, 14, 16, 18, 19, 21, 22, 23])]"
| "spec_table Height = table_of_rows
    [((''High'', None), [1..4]), ((''Mid'', None), [5..11]), ((''Low'', None), [12..15])]"
| "spec_table Backness = table_of_rows
    [((''Front'', None), [1, 2, 5, 6, 12]),
     ((''Central'', None), [7, 8, 13, 14]),
     ((''Back'', None), [3, 4, 9, 10, 11, 15])]"
| "spec_table Tenseness = table_of_rows
    [((''Tensed'', None), [1, 3, 5, 9, 10, 13, 14, 15]),
     ((''Laxed'', None), [2, 4, 6, 7, 8, 11, 12])]"
| "spec_table Roundedness = table_of_rows
    [((''Rounded'', None), [3, 4, 9, 10, 11]),
     ((''Unrounded'', None), [1, 2, 5, 6, 7, 8, 12, 13, 14, 15])]"
| "spec_table DiphthongStatus = table_of_rows
    [((''SimpleVowel'', None), [1, 2, 3, 4, 6, 7, 8, 11, 12, 15]),
     ((''Diphthong'', Some ''MajorDiphthong''), [10, 13, 14]),
     ((''Diphthong'', Some ''MinorDiphthong''), [5, 9])]"

subsection \<open>The program's tables in the specification's data model\<close>

text \<open>The program writes "no secondary" as the empty string.\<close>

definition feature_value :: "string \<times> string \<Rightarrow> FeatureValue" where
  "feature_value ps = (fst ps, if snd ps = '''' then None else Some (snd ps))"

definition two_level_table :: "(int \<Rightarrow> (string \<times> string) option) \<Rightarrow> FeatureTable" where
  "two_level_table lookup c = map_option feature_value (lookup c)"

definition one_level_table :: "(int \<Rightarrow> string option) \<Rightarrow> FeatureTable" where
  "one_level_table lookup c = map_option (\<lambda>p. (p, None)) (lookup c)"

fun code_table :: "dimension \<Rightarrow> FeatureTable" where
  "code_table PlaceOfArticulation = two_level_table conPlace_lookup"
| "code_table MannerOfArticulation = two_level_table conManner_lookup"
| "code_table Voicing = one_level_table conVoicing_lookup"
| "code_table Height = one_level_table vowHeight_lookup"
| "code_table Backness = one_level_table vowBackness_lookup"
| "code_table Tenseness = one_level_table vowTenseness_lookup"
| "code_table Roundedness = one_level_table vowRoundedness_lookup"
| "code_table DiphthongStatus = two_level_table vowDiphthong_lookup"

fun reducer :: "dimension \<Rightarrow> int list \<Rightarrow> error + string" where
  "reducer PlaceOfArticulation = conPlaceArticulation"
| "reducer MannerOfArticulation = conMannerArticulation"
| "reducer Voicing = conVoicing"
| "reducer Height = vowHeight"
| "reducer Backness = vowBackness"
| "reducer Tenseness = vowTenseness"
| "reducer Roundedness = vowRoundedness"
| "reducer DiphthongStatus = vowDiphthong"

text \<open>The caption each function prints in front of its label.\<close>

fun caption :: "dimension \<Rightarrow> string" where
  "caption PlaceOfArticulation = ''The common place of articulation is: ''"
| "caption MannerOfArticulation = ''The common manner of articulation is: ''"
| "caption Voicing = ''The common voicing is: ''"
| "caption Height = ''The common height of the tongue is: ''"
| "caption Backness = ''The common backness of the tongue is: ''"
| "caption Tenseness = ''The common tenseness of the vocal tract is: ''"
| "caption Roundedness = ''The common roundedness of the lips is: ''"
| "caption DiphthongStatus = ''The common simple/complex vowel is: ''"

text \<open>Section 3: the two phoneme classes, their code ranges and their dimensions; the
  selector is 0 for consonants and 1 for vowels.\<close>

datatype PhonemeClass = Consonant | Vowel

fun valid_code :: "PhonemeClass \<Rightarrow> int \<Rightarrow> bool" where
  "valid_code Consonant c = (1 \<le> c \<and> c \<le> 25)"
| "valid_code Vowel c = (1 \<le> c \<and> c \<le> 15)"

fun dimensions_of :: "PhonemeClass \<Rightarrow> dimension list" where
  "dimensions_of Consonant = [PlaceOfArticulation, MannerOfArticulation, Voicing]"
| "dimensions_of Vowel = [Height, Backness, Tenseness, Roundedness, DiphthongStatus]"

fun class_of :: "dimension \<Rightarrow> PhonemeClass" where
  "class_of PlaceOfArticulation = Consonant"
| "class_of MannerOfArticulation = Consonant"
| "class_of Voicing = Consonant"
| "class_of Height = Vowel"
| "class_of Backness = Vowel"
| "class_of Tenseness = Vowel"
| "class_of Roundedness = Vowel"
| "class_of DiphthongStatus = Vowel"

definition selector_class :: "int \<Rightarrow> PhonemeClass option" where
  "selector_class consonantVowel =
    (if consonantVowel = 0 then Some Consonant
     else if consonantVowel = 1 then Some Vowel
     else None)"

text \<open>The specification's label names are written without blanks (\<open>SimpleVowel\<close>); the
  program prints them with blanks (\<open>Simple Vowel\<close>).\<close>

definition squash :: "string \<Rightarrow> string" where
  "squash s = filter (\<lambda>ch. ch \<noteq> CHR '' '') s"

definition squash_value :: "FeatureValue \<Rightarrow> FeatureValue" where
  "squash_value v = (squash (fst v), map_option squash (snd v))"

subsection \<open>Section 4.2: the generic two-level reducer, in the specification's words\<close>

text \<open>Step 3: the comparison of the running value \<open>(Pc, Sc)\<close> with the next value
  \<open>(Pi, Si)\<close>, rules a to e in their order; \<open>None\<close> is rule e.\<close>

fun compare_step :: "FeatureValue \<Rightarrow> FeatureValue \<Rightarrow> FeatureValue option" where
  "compare_step (Pc, Sc) (Pi, Si) =
    (if Pi = Pc then Some (Pc, None)
     else if Sc \<noteq> None \<and> Si \<noteq> None \<and> Sc = Si then Some (the Sc, None)
     else if Sc \<noteq> None \<and> Sc = Some Pi then Some (Pi, None)
     else if Si \<noteq> None \<and> Si = Some Pc then Some (the Si, None)
     else None)"

text \<open>Steps 3 and 4: fold the remaining values into the running one; the result is the
  running primary label.\<close>

fun fold_values :: "FeatureValue \<Rightarrow> FeatureValue list \<Rightarrow> error + string" where
  "fold_values current [] = Inr (fst current)"
| "fold_values current (v # vs) =
    (case compare_step current v of
       None \<Rightarrow> Inl NoCommonFeature
     | Some current' \<Rightarrow> fold_values current' vs)"

text \<open>Step 1: map each code through the table; a code with no entry aborts the whole
  reduction.\<close>

fun map_codes :: "FeatureTable \<Rightarrow> int list \<Rightarrow> FeatureValue list option" where
  "map_codes table [] = Some []"
| "map_codes table (c # cs) =
    (case table c of
       None \<Rightarrow> None
     | Some v \<Rightarrow> (case map_codes table cs of None \<Rightarrow> None | Some vs \<Rightarrow> Some (v # vs)))"

text \<open>Steps 1 to 4 on a sequence with first code \<open>c\<close> and remaining codes \<open>cs\<close>. Step 2
  needs a first code: the specification leaves the empty sequence undefined.\<close>

definition generic_reduce :: "FeatureTable \<Rightarrow> int \<Rightarrow> int list \<Rightarrow> error + string" where
  "generic_reduce table c cs =
    (case table c of
       None \<Rightarrow> Inl OutOfRangeCode
     | Some v \<Rightarrow>
        (case map_codes table cs of
           None \<Rightarrow> Inl OutOfRangeCode
         | Some vs \<Rightarrow> fold_values v vs))"

section \<open>The common shape of the eight loops\<close>

text \<open>
  The eight loops differ in their tables and in the names of their variables only. The
  definitions below are that common shape, used to reason about all of them at once:
  \<open>compare2\<close> is the comparison part of the three loops that keep a sub-label,
  \<open>steady2\<close> the iterations with \<open>i > 0\<close>, \<open>reduce2\<close> the whole function, and
  \<open>pair_lookup\<close> turns the table of a loop without sub-label into one whose sub-label is
  always empty. Each source function is proved equal to its instance below.
\<close>

definition compare2 :: "string \<times> string \<Rightarrow> string \<times> string \<Rightarrow> (string \<times> string) option" where
  "compare2 prev cur =
    (if fst cur = fst prev then Some (fst cur, '''')
     else if snd prev \<noteq> '''' \<and> snd cur \<noteq> '''' then
       (if snd cur = snd prev then Some (snd cur, '''') else None)
     else if snd prev \<noteq> '''' then
       (if fst cur = snd prev then Some (fst cur, '''') else None)
     else if snd cur \<noteq> '''' then
       (if snd cur = fst prev then Some (snd cur, '''') else None)
     else None)"

fun steady2 :: "(int \<Rightarrow> (string \<times> string) option) \<Rightarrow> int list \<Rightarrow> string \<times> string \<Rightarrow> error + string" where
  "steady2 lookup [] prev = Inr (fst prev)"
| "steady2 lookup (c # rest) prev =
    (case lookup c of
       None \<Rightarrow> Inl OutOfRangeCode
     | Some cur \<Rightarrow>
        (case compare2 prev cur of
           None \<Rightarrow> Inl NoCommonFeature
         | Some prev' \<Rightarrow> steady2 lookup rest prev'))"

definition reduce2 :: "(int \<Rightarrow> (string \<times> string) option) \<Rightarrow> int list \<Rightarrow> error + string" where
  "reduce2 lookup codes =
    (case codes of
       [] \<Rightarrow> Inr ''''
     | c # rest \<Rightarrow> (case lookup c of None \<Rightarrow> Inl OutOfRangeCode | Some cur \<Rightarrow> steady2 lookup rest cur))"

definition pair_lookup :: "(int \<Rightarrow> string option) \<Rightarrow> int \<Rightarrow> (string \<times> string) option" where
  "pair_lookup lookup c = map_option (\<lambda>p. (p, '''')) (lookup c)"

text \<open>The table of each dimension in the form \<open>reduce2\<close> takes.\<close>

fun lookup2 :: "dimension \<Rightarrow> int \<Rightarrow> (string \<times> string) option" where
  "lookup2 PlaceOfArticulation = conPlace_lookup"
| "lookup2 MannerOfArticulation = conManner_lookup"
| "lookup2 Voicing = pair_lookup conVoicing_lookup"
| "lookup2 Height = pair_lookup vowHeight_lookup"
| "lookup2 Backness = pair_lookup vowBackness_lookup"
| "lookup2 Tenseness = pair_lookup vowTenseness_lookup"
| "lookup2 Roundedness = pair_lookup vowRoundedness_lookup"
| "lookup2 DiphthongStatus = vowDiphthong_lookup"

text \<open>A label \<open>X\<close> covers a table entry when it is the entry's label or its (non-empty)
  sub-label.\<close>

definition covers :: "string \<Rightarrow> string \<times> string \<Rightarrow> bool" where
  "covers X v \<longleftrightarrow> fst v = X \<or> (snd v = X \<and> snd v \<noteq> '''')"

section \<open>Each source function is an instance of the common shape\<close>

lemma conPlace_loop_steady:
  "0 < i \<Longrightarrow> conPlace_loop xs i p s = steady2 conPlace_lookup xs (p, s)"
proof (induction xs arbitrary: i p s)
  case Nil
  show ?case by simp
next
  case (Cons x xs)
  have step: "\<And>q t. conPlace_loop xs (Suc i) q t = steady2 conPlace_lookup xs (q, t)"
    by (rule Cons.IH) simp
  show ?case
  proof (cases "conPlace_lookup x")
    case None
    then show ?thesis by simp
  next
    case (Some cur)
    obtain place subPlace where cur: "cur = (place, subPlace)" by (cases cur)
    from Cons.prems Some cur show ?thesis
      by (simp add: compare2_def step)
  qed
qed

lemma conPlace_reduce2: "conPlaceArticulation xs = reduce2 conPlace_lookup xs"
proof (cases xs)
  case Nil
  then show ?thesis by (simp add: conPlaceArticulation_def reduce2_def)
next
  case (Cons x rest)
  show ?thesis
  proof (cases "conPlace_lookup x")
    case None
    with Cons show ?thesis by (simp add: conPlaceArticulation_def reduce2_def)
  next
    case (Some cur)
    obtain place subPlace where cur: "cur = (place, subPlace)" by (cases cur)
    from Cons Some cur show ?thesis
      by (simp add: conPlaceArticulation_def reduce2_def conPlace_loop_steady)
  qed
qed

lemma conManner_loop_steady:
  "0 < i \<Longrightarrow> conManner_loop xs i p s = steady2 conManner_lookup xs (p, s)"
proof (induction xs arbitrary: i p s)
  case Nil
  show ?case by simp
next
  case (Cons x xs)
  have step: "\<And>q t. conManner_loop xs (Suc i) q t = steady2 conManner_lookup xs (q, t)"
    by (rule Cons.IH) simp
  show ?case
  proof (cases "conManner_lookup x")
    case None
    then show ?thesis by simp
  next
    case (Some cur)
    obtain manner subManner where cur: "cur = (manner, subManner)" by (cases cur)
    from Cons.prems Some cur show ?thesis
      by (simp add: compare2_def step)
  qed
qed

lemma conManner_reduce2: "conMannerArticulation xs = reduce2 conManner_lookup xs"
proof (cases xs)
  case Nil
  then show ?thesis by (simp add: conMannerArticulation_def reduce2_def)
next
  case (Cons x rest)
  show ?thesis
  proof (cases "conManner_lookup x")
    case None
    with Cons show ?thesis by (simp add: conMannerArticulation_def reduce2_def)
  next
    case (Some cur)
    obtain manner subManner where cur: "cur = (manner, subManner)" by (cases cur)
    from Cons Some cur show ?thesis
      by (simp add: conMannerArticulation_def reduce2_def conManner_loop_steady)
  qed
qed

lemma vowDiphthong_loop_steady:
  "0 < i \<Longrightarrow> vowDiphthong_loop xs i p s = steady2 vowDiphthong_lookup xs (p, s)"
proof (induction xs arbitrary: i p s)
  case Nil
  show ?case by simp
next
  case (Cons x xs)
  have step: "\<And>q t. vowDiphthong_loop xs (Suc i) q t = steady2 vowDiphthong_lookup xs (q, t)"
    by (rule Cons.IH) simp
  show ?case
  proof (cases "vowDiphthong_lookup x")
    case None
    then show ?thesis by simp
  next
    case (Some cur)
    obtain diphthong subDiphthong where cur: "cur = (diphthong, subDiphthong)" by (cases cur)
    from Cons.prems Some cur show ?thesis
      by (simp add: compare2_def step)
  qed
qed

lemma vowDiphthong_reduce2: "vowDiphthong xs = reduce2 vowDiphthong_lookup xs"
proof (cases xs)
  case Nil
  then show ?thesis by (simp add: vowDiphthong_def reduce2_def)
next
  case (Cons x rest)
  show ?thesis
  proof (cases "vowDiphthong_lookup x")
    case None
    with Cons show ?thesis by (simp add: vowDiphthong_def reduce2_def)
  next
    case (Some cur)
    obtain diphthong subDiphthong where cur: "cur = (diphthong, subDiphthong)" by (cases cur)
    from Cons Some cur show ?thesis
      by (simp add: vowDiphthong_def reduce2_def vowDiphthong_loop_steady)
  qed
qed

lemma conVoicing_loop_steady:
  "0 < i \<Longrightarrow> conVoicing_loop xs i p = steady2 (pair_lookup conVoicing_lookup) xs (p, '''')"
proof (induction xs arbitrary: i p)
  case Nil
  show ?case by simp
next
  case (Cons x xs)
  have step: "\<And>q. conVoicing_loop xs (Suc i) q = steady2 (pair_lookup conVoicing_lookup) xs (q, '''')"
    by (rule Cons.IH) simp
  have pl: "pair_lookup conVoicing_lookup x = map_option (\<lambda>p. (p, '''')) (conVoicing_lookup x)"
    by (simp add: pair_lookup_def)
  from Cons.prems show ?case
    by (cases "conVoicing_lookup x") (simp_all add: compare2_def step pl)
qed

lemma conVoicing_reduce2: "conVoicing xs = reduce2 (pair_lookup conVoicing_lookup) xs"
proof (cases xs)
  case Nil
  then show ?thesis by (simp add: conVoicing_def reduce2_def)
next
  case (Cons x rest)
  have pl: "pair_lookup conVoicing_lookup x = map_option (\<lambda>p. (p, '''')) (conVoicing_lookup x)"
    by (simp add: pair_lookup_def)
  from Cons show ?thesis
    by (cases "conVoicing_lookup x")
       (simp_all add: conVoicing_def reduce2_def conVoicing_loop_steady pl)
qed


lemma vowHeight_loop_steady:
  "0 < i \<Longrightarrow> vowHeight_loop xs i p = steady2 (pair_lookup vowHeight_lookup) xs (p, '''')"
proof (induction xs arbitrary: i p)
  case Nil
  show ?case by simp
next
  case (Cons x xs)
  have step: "\<And>q. vowHeight_loop xs (Suc i) q = steady2 (pair_lookup vowHeight_lookup) xs (q, '''')"
    by (rule Cons.IH) simp
  have pl: "pair_lookup vowHeight_lookup x = map_option (\<lambda>p. (p, '''')) (vowHeight_lookup x)"
    by (simp add: pair_lookup_def)
  from Cons.prems show ?case
    by (cases "vowHeight_lookup x") (simp_all add: compare2_def step pl)
qed

lemma vowHeight_reduce2: "vowHeight xs = reduce2 (pair_lookup vowHeight_lookup) xs"
proof (cases xs)
  case Nil
  then show ?thesis by (simp add: vowHeight_def reduce2_def)
next
  case (Cons x rest)
  have pl: "pair_lookup vowHeight_lookup x = map_option (\<lambda>p. (p, '''')) (vowHeight_lookup x)"
    by (simp add: pair_lookup_def)
  from Cons show ?thesis
    by (cases "vowHeight_lookup x")
       (simp_all add: vowHeight_def reduce2_def vowHeight_loop_steady pl)
qed


lemma vowBackness_loop_steady:
  "0 < i \<Longrightarrow> vowBackness_loop xs i p = steady2 (pair_lookup vowBackness_lookup) xs (p, '''')"
proof (induction xs arbitrary: i p)
  case Nil
  show ?case by simp
next
  case (Cons x xs)
  have step: "\<And>q. vowBackness_loop xs (Suc i) q = steady2 (pair_lookup vowBackness_lookup) xs (q, '''')"
    by (rule Cons.IH) simp
  have pl: "pair_lookup vowBackness_lookup x = map_option (\<lambda>p. (p, '''')) (vowBackness_lookup x)"
    by (simp add: pair_lookup_def)
  from Cons.prems show ?case
    by (cases "vowBackness_lookup x") (simp_all add: compare2_def step pl)
qed

lemma vowBackness_reduce2: "vowBackness xs = reduce2 (pair_lookup vowBackness_lookup) xs"
proof (cases xs)
  case Nil
  then show ?thesis by (simp add: vowBackness_def reduce2_def)
next
  case (Cons x rest)
  have pl: "pair_lookup vowBackness_lookup x = map_option (\<lambda>p. (p, '''')) (vowBackness_lookup x)"
    by (simp add: pair_lookup_def)
  from Cons show ?thesis
    by (cases "vowBackness_lookup x")
       (simp_all add: vowBackness_def reduce2_def vowBackness_loop_steady pl)
qed


lemma vowTenseness_loop_steady:
  "0 < i \<Longrightarrow> vowTenseness_loop xs i p = steady2 (pair_lookup vowTenseness_lookup) xs (p, '''')"
proof (induction xs arbitrary: i p)
  case Nil
  show ?case by simp
next
  case (Cons x xs)
  have step: "\<And>q. vowTenseness_loop xs (Suc i) q = steady2 (pair_lookup vowTenseness_lookup) xs (q, '''')"
    by (rule Cons.IH) simp
  have pl: "pair_lookup vowTenseness_lookup x = map_option (\<lambda>p. (p, '''')) (vowTenseness_lookup x)"
    by (simp add: pair_lookup_def)
  from Cons.prems show ?case
    by (cases "vowTenseness_lookup x") (simp_all add: compare2_def step pl)
qed

lemma vowTenseness_reduce2: "vowTenseness xs = reduce2 (pair_lookup vowTenseness_lookup) xs"
proof (cases xs)
  case Nil
  then show ?thesis by (simp add: vowTenseness_def reduce2_def)
next
  case (Cons x rest)
  have pl: "pair_lookup vowTenseness_lookup x = map_option (\<lambda>p. (p, '''')) (vowTenseness_lookup x)"
    by (simp add: pair_lookup_def)
  from Cons show ?thesis
    by (cases "vowTenseness_lookup x")
       (simp_all add: vowTenseness_def reduce2_def vowTenseness_loop_steady pl)
qed


lemma vowRoundedness_loop_steady:
  "0 < i \<Longrightarrow> vowRoundedness_loop xs i p = steady2 (pair_lookup vowRoundedness_lookup) xs (p, '''')"
proof (induction xs arbitrary: i p)
  case Nil
  show ?case by simp
next
  case (Cons x xs)
  have step: "\<And>q. vowRoundedness_loop xs (Suc i) q = steady2 (pair_lookup vowRoundedness_lookup) xs (q, '''')"
    by (rule Cons.IH) simp
  have pl: "pair_lookup vowRoundedness_lookup x = map_option (\<lambda>p. (p, '''')) (vowRoundedness_lookup x)"
    by (simp add: pair_lookup_def)
  from Cons.prems show ?case
    by (cases "vowRoundedness_lookup x") (simp_all add: compare2_def step pl)
qed

lemma vowRoundedness_reduce2: "vowRoundedness xs = reduce2 (pair_lookup vowRoundedness_lookup) xs"
proof (cases xs)
  case Nil
  then show ?thesis by (simp add: vowRoundedness_def reduce2_def)
next
  case (Cons x rest)
  have pl: "pair_lookup vowRoundedness_lookup x = map_option (\<lambda>p. (p, '''')) (vowRoundedness_lookup x)"
    by (simp add: pair_lookup_def)
  from Cons show ?thesis
    by (cases "vowRoundedness_lookup x")
       (simp_all add: vowRoundedness_def reduce2_def vowRoundedness_loop_steady pl)
qed


section \<open>Properties of the common shape\<close>

lemma compare2_snd: "compare2 prev cur = Some prev' \<Longrightarrow> snd prev' = ''''"
  by (auto simp: compare2_def split: if_splits)

lemma steady2_invalid_prefix:
  "\<exists>x\<in>set xs. lookup x = None \<Longrightarrow>
   steady2 lookup xs st =
     (case steady2 lookup (takeWhile (\<lambda>x. lookup x \<noteq> None) xs) st of
        Inr l \<Rightarrow> Inl OutOfRangeCode | Inl e \<Rightarrow> Inl e)"
proof (induction xs arbitrary: st)
  case Nil
  then show ?case by simp
next
  case (Cons x xs)
  show ?case
  proof (cases "lookup x")
    case None
    then show ?thesis by simp
  next
    case (Some cur)
    with Cons.prems have rest: "\<exists>y\<in>set xs. lookup y = None" by auto
    show ?thesis
    proof (cases "compare2 st cur")
      case None
      with Some show ?thesis by simp
    next
      case (Some st')
      with \<open>lookup x = Some cur\<close> Cons.IH [OF rest, of st'] show ?thesis by simp
    qed
  qed
qed

lemma reduce2_invalid_prefix:
  assumes "\<exists>x\<in>set xs. lookup x = None"
  shows "reduce2 lookup xs =
     (case reduce2 lookup (takeWhile (\<lambda>x. lookup x \<noteq> None) xs) of
        Inr l \<Rightarrow> Inl OutOfRangeCode | Inl e \<Rightarrow> Inl e)"
proof (cases xs)
  case Nil
  with assms show ?thesis by simp
next
  case (Cons x rest)
  show ?thesis
  proof (cases "lookup x")
    case None
    with Cons show ?thesis by (simp add: reduce2_def)
  next
    case (Some cur)
    with assms Cons have "\<exists>y\<in>set rest. lookup y = None" by auto
    from steady2_invalid_prefix [OF this, of cur] Some Cons show ?thesis
      by (simp add: reduce2_def)
  qed
qed

lemma reduce2_invalid_no_label:
  assumes "\<exists>x\<in>set xs. lookup x = None"
  shows "\<exists>e. reduce2 lookup xs = Inl e"
  using reduce2_invalid_prefix [OF assms] by (auto split: sum.splits)

lemma compare2_step:
  assumes "\<not> (snd prev \<noteq> '''' \<and> snd cur \<noteq> '''' \<and> fst prev \<noteq> fst cur)"
  shows "map_option feature_value (compare2 prev cur) =
         compare_step (feature_value prev) (feature_value cur)"
  using assms by (cases prev; cases cur) (auto simp: compare2_def feature_value_def)

lemma two_level_table_None: "two_level_table lookup x = None \<longleftrightarrow> lookup x = None"
  by (simp add: two_level_table_def)

lemma two_level_table_Some: "lookup x = Some cur \<Longrightarrow> two_level_table lookup x = Some (feature_value cur)"
  by (simp add: two_level_table_def)

lemma map_codes_Cons_Some:
  "map_codes t (x # xs) = Some vs \<Longrightarrow> \<exists>v vs'. t x = Some v \<and> map_codes t xs = Some vs' \<and> vs = v # vs'"
  by (auto split: option.splits)

lemma steady2_fold_values:
  assumes coh: "\<And>x y p s p' s'. lookup x = Some (p, s) \<Longrightarrow> lookup y = Some (p', s') \<Longrightarrow>
                  s \<noteq> '''' \<Longrightarrow> s' \<noteq> '''' \<Longrightarrow> p = p'"
  shows "map_codes (two_level_table lookup) xs = Some vs \<Longrightarrow>
         snd st = '''' \<or> (\<exists>y. lookup y = Some st) \<Longrightarrow>
         steady2 lookup xs st = fold_values (feature_value st) vs"
proof (induction xs arbitrary: st vs)
  case Nil
  then show ?case by (simp add: feature_value_def)
next
  case (Cons x xs)
  from map_codes_Cons_Some [OF Cons.prems(1)] obtain v vs' where
    v: "two_level_table lookup x = Some v" and vs0: "vs = v # vs'"
    and rest: "map_codes (two_level_table lookup) xs = Some vs'"
    by blast
  from v obtain cur where cur: "lookup x = Some cur"
    by (cases "lookup x") (simp_all add: two_level_table_def)
  with v vs0 have vs: "vs = feature_value cur # vs'"
    by (simp add: two_level_table_def)
  have ok: "\<not> (snd st \<noteq> '''' \<and> snd cur \<noteq> '''' \<and> fst st \<noteq> fst cur)"
  proof
    assume a: "snd st \<noteq> '''' \<and> snd cur \<noteq> '''' \<and> fst st \<noteq> fst cur"
    with Cons.prems(2) obtain y where "lookup y = Some st" by auto
    then have "lookup y = Some (fst st, snd st)" by simp
    moreover from cur have "lookup x = Some (fst cur, snd cur)" by simp
    ultimately have "fst st = fst cur" using a coh by blast
    with a show False by simp
  qed
  show ?case
  proof (cases "compare2 st cur")
    case None
    with compare2_step [OF ok] have "compare_step (feature_value st) (feature_value cur) = None"
      by simp
    with None cur vs show ?thesis by simp
  next
    case (Some st')
    with compare2_step [OF ok]
    have cs: "compare_step (feature_value st) (feature_value cur) = Some (feature_value st')"
      by simp
    from Some have "snd st' = ''''" by (rule compare2_snd)
    then have "steady2 lookup xs st' = fold_values (feature_value st') vs'"
      using Cons.IH [OF rest] by blast
    with Some cur vs cs show ?thesis by simp
  qed
qed

lemma map_codes_None: "map_codes t xs = None \<longleftrightarrow> (\<exists>x\<in>set xs. t x = None)"
  by (induction xs) (auto split: option.splits)

lemma reduce2_generic:
  assumes coh: "\<And>x y p s p' s'. lookup x = Some (p, s) \<Longrightarrow> lookup y = Some (p', s') \<Longrightarrow>
                  s \<noteq> '''' \<Longrightarrow> s' \<noteq> '''' \<Longrightarrow> p = p'"
  shows "reduce2 lookup (c # cs) = generic_reduce (two_level_table lookup) c cs \<or>
         (reduce2 lookup (c # cs) = Inl NoCommonFeature \<and>
          generic_reduce (two_level_table lookup) c cs = Inl OutOfRangeCode)"
proof (cases "\<exists>x\<in>set (c # cs). lookup x = None")
  case True
  then have "two_level_table lookup c = None \<or> map_codes (two_level_table lookup) cs = None"
    by (simp add: two_level_table_None map_codes_None)
  then have g: "generic_reduce (two_level_table lookup) c cs = Inl OutOfRangeCode"
    unfolding generic_reduce_def by (auto split: option.splits)
  from reduce2_invalid_no_label [OF True] obtain e where e: "reduce2 lookup (c # cs) = Inl e"
    by blast
  show ?thesis using g e by (cases e) simp_all
next
  case False
  then obtain cur where cur: "lookup c = Some cur" by auto
  from False have "\<not> (\<exists>x\<in>set cs. two_level_table lookup x = None)"
    by (simp add: two_level_table_None)
  then obtain vs where vs: "map_codes (two_level_table lookup) cs = Some vs"
    using map_codes_None [of "two_level_table lookup" cs] by auto
  have "steady2 lookup cs cur = fold_values (feature_value cur) vs"
    using steady2_fold_values [of lookup cs vs cur] coh vs cur by blast
  with cur vs two_level_table_Some [of lookup c cur] show ?thesis
    by (simp add: reduce2_def generic_reduce_def)
qed


section \<open>The tables\<close>

lemma conPlace_lookup_dom: "conPlace_lookup c = None \<longleftrightarrow> \<not> valid_code Consonant c"
  unfolding conPlace_lookup_def by (simp; presburger)
lemma conManner_lookup_dom: "conManner_lookup c = None \<longleftrightarrow> \<not> valid_code Consonant c"
  unfolding conManner_lookup_def by (simp; presburger)
lemma conVoicing_lookup_dom: "conVoicing_lookup c = None \<longleftrightarrow> \<not> valid_code Consonant c"
  unfolding conVoicing_lookup_def by (simp; presburger)
lemma vowHeight_lookup_dom: "vowHeight_lookup c = None \<longleftrightarrow> \<not> valid_code Vowel c"
  unfolding vowHeight_lookup_def by (simp; presburger)
lemma vowBackness_lookup_dom: "vowBackness_lookup c = None \<longleftrightarrow> \<not> valid_code Vowel c"
  unfolding vowBackness_lookup_def by (simp; presburger)
lemma vowTenseness_lookup_dom: "vowTenseness_lookup c = None \<longleftrightarrow> \<not> valid_code Vowel c"
  unfolding vowTenseness_lookup_def by (simp; presburger)
lemma vowRoundedness_lookup_dom: "vowRoundedness_lookup c = None \<longleftrightarrow> \<not> valid_code Vowel c"
  unfolding vowRoundedness_lookup_def by (simp; presburger)
lemma vowDiphthong_lookup_dom: "vowDiphthong_lookup c = None \<longleftrightarrow> \<not> valid_code Vowel c"
  unfolding vowDiphthong_lookup_def by (simp; presburger)

lemma one_level_table_None: "one_level_table lookup c = None \<longleftrightarrow> lookup c = None"
  by (simp add: one_level_table_def)

lemma code_table_dom: "code_table d c = None \<longleftrightarrow> \<not> valid_code (class_of d) c"
  by (cases d)
     (simp_all add: two_level_table_None one_level_table_None conPlace_lookup_dom
        conManner_lookup_dom conVoicing_lookup_dom vowHeight_lookup_dom vowBackness_lookup_dom
        vowTenseness_lookup_dom vowRoundedness_lookup_dom vowDiphthong_lookup_dom)

lemma spec_place: "map_option squash_value (code_table PlaceOfArticulation c) = spec_table PlaceOfArticulation c"
  by (simp add: two_level_table_def conPlace_lookup_def table_of_rows_def squash_value_def squash_def feature_value_def)
lemma spec_manner: "map_option squash_value (code_table MannerOfArticulation c) = spec_table MannerOfArticulation c"
  by (simp add: two_level_table_def conManner_lookup_def table_of_rows_def squash_value_def squash_def feature_value_def)
lemma spec_voicing: "map_option squash_value (code_table Voicing c) = spec_table Voicing c"
  by (simp add: one_level_table_def conVoicing_lookup_def table_of_rows_def squash_value_def squash_def)
lemma spec_height: "map_option squash_value (code_table Height c) = spec_table Height c"
  by (auto simp add: one_level_table_def vowHeight_lookup_def table_of_rows_def squash_value_def squash_def)
lemma spec_backness: "map_option squash_value (code_table Backness c) = spec_table Backness c"
  by (simp add: one_level_table_def vowBackness_lookup_def table_of_rows_def squash_value_def squash_def)
lemma spec_tenseness: "map_option squash_value (code_table Tenseness c) = spec_table Tenseness c"
  by (simp add: one_level_table_def vowTenseness_lookup_def table_of_rows_def squash_value_def squash_def)
lemma spec_roundedness: "map_option squash_value (code_table Roundedness c) = spec_table Roundedness c"
  by (simp add: one_level_table_def vowRoundedness_lookup_def table_of_rows_def squash_value_def squash_def)
lemma spec_diphthong: "map_option squash_value (code_table DiphthongStatus c) = spec_table DiphthongStatus c"
  by (simp add: two_level_table_def vowDiphthong_lookup_def table_of_rows_def squash_value_def squash_def feature_value_def)

section \<open>Single codes, the dispatcher and the input loop\<close>

lemma two_level_single:
  "two_level_table lookup c = Some v \<Longrightarrow> reduce2 lookup [c] = Inr (fst v)"
  by (cases "lookup c") (auto simp: two_level_table_def reduce2_def feature_value_def)

lemma one_level_single:
  "one_level_table lookup c = Some v \<Longrightarrow> reduce2 (pair_lookup lookup) [c] = Inr (fst v)"
  by (cases "lookup c") (auto simp: one_level_table_def reduce2_def pair_lookup_def)

lemmas reducer_reduce2 = conPlace_reduce2 conManner_reduce2 conVoicing_reduce2 vowHeight_reduce2
  vowBackness_reduce2 vowTenseness_reduce2 vowRoundedness_reduce2 vowDiphthong_reduce2

lemma reducer_single: "code_table d c = Some v \<Longrightarrow> reducer d [c] = Inr (fst v)"
  by (cases d) (simp_all add: reducer_reduce2 two_level_single one_level_single)

lemma run_selected_concat:
  "selector_class sel = Some cls \<Longrightarrow>
   run_selected sel codes =
     concat (map (\<lambda>d. report (caption d) (reducer d codes)) (dimensions_of cls)) @
     [''========END========'']"
  by (cases cls) (auto simp: selector_class_def run_selected_def split: if_splits)

lemma caption_inj: "caption d @ l = caption d' @ l' \<Longrightarrow> d = d' \<and> l = l'"
  by (cases d; cases d'; simp)

lemma caption_not_end: "caption d @ l \<noteq> ''========END========''"
  by (cases d; simp)

lemma read_codes_fits:
  "num \<le> int (length intArray) \<Longrightarrow>
   \<exists>arr. read_codes entered num i intArray = Inr arr \<and> length arr = length intArray \<and>
     (\<forall>k. k < i \<longrightarrow> arr ! k = intArray ! k) \<and>
     (\<forall>k. i \<le> k \<and> int k < num \<longrightarrow> arr ! k = entered k)"
proof (induction entered num i intArray rule: read_codes.induct)
  case (1 entered num i intArray)
  show ?case
  proof (cases "int i < num")
    case False
    then show ?thesis by (simp add: read_codes.simps [of entered num i intArray])
  next
    case True
    with "1.prems" have inb: "i < length intArray" by linarith
    from "1.prems" have "num \<le> int (length (intArray[i := entered i]))" by simp
    from "1.IH" [OF True inb this] obtain arr where
      r: "read_codes entered num (i + 1) (intArray[i := entered i]) = Inr arr"
      and len: "length arr = length (intArray[i := entered i])"
      and low: "\<forall>k. k < i + 1 \<longrightarrow> arr ! k = (intArray[i := entered i]) ! k"
      and high: "\<forall>k. i + 1 \<le> k \<and> int k < num \<longrightarrow> arr ! k = entered k"
      by blast
    have "read_codes entered num i intArray = Inr arr"
      using True inb r by (simp add: read_codes.simps [of entered num i intArray])
    moreover have "length arr = length intArray" using len by simp
    moreover have "\<forall>k. k < i \<longrightarrow> arr ! k = intArray ! k"
      using low by auto
    moreover have "\<forall>k. i \<le> k \<and> int k < num \<longrightarrow> arr ! k = entered k"
    proof (intro allI impI)
      fix k assume k: "i \<le> k \<and> int k < num"
      show "arr ! k = entered k"
      proof (cases "k = i")
        case True
        with low inb show ?thesis by simp
      next
        case False
        with k high show ?thesis by simp
      qed
    qed
    ultimately show ?thesis by blast
  qed
qed

lemma read_codes_overflow:
  "int (length intArray) < num \<Longrightarrow> i \<le> length intArray \<Longrightarrow>
   read_codes entered num i intArray = Inl (WriteOutOfBounds (length intArray))"
proof (induction entered num i intArray rule: read_codes.induct)
  case (1 entered num i intArray)
  show ?case
  proof (cases "i < length intArray")
    case True
    with "1.prems" have lt: "int i < num" by linarith
    have "read_codes entered num (i + 1) (intArray[i := entered i]) =
          Inl (WriteOutOfBounds (length (intArray[i := entered i])))"
      using "1.IH" [OF lt True] "1.prems" True by simp
    with lt True show ?thesis by (simp add: read_codes.simps [of entered num i intArray])
  next
    case False
    with "1.prems" have "i = length intArray" by simp
    with "1.prems" show ?thesis by (simp add: read_codes.simps [of entered num i intArray])
  qed
qed

lemma caption_not_invalid: "caption d @ l \<noteq> ''Invalid Input''"
  by (cases d; simp)

lemma report_set: "x \<in> set (report c r) \<longleftrightarrow> (\<exists>l. r = Inr l \<and> x = c @ l)"
  by (cases r) (auto simp: report_def)

lemma run_selected_line:
  assumes "selector_class sel = Some cls" and "d \<in> set (dimensions_of cls)"
  shows "caption d @ l \<in> set (run_selected sel codes) \<longleftrightarrow> reducer d codes = Inr l"
proof -
  have "caption d @ l \<in> set (run_selected sel codes) \<longleftrightarrow>
        (\<exists>d'\<in>set (dimensions_of cls). \<exists>l'. reducer d' codes = Inr l' \<and> caption d @ l = caption d' @ l')"
    unfolding run_selected_concat [OF assms(1)]
    by (simp add: report_set caption_not_end)
  also have "\<dots> \<longleftrightarrow> reducer d codes = Inr l"
    using assms(2) by (auto dest: caption_inj)
  finally show ?thesis .
qed

section \<open>All eight functions at once\<close>

lemma reducer_lookup2: "reducer d codes = reduce2 (lookup2 d) codes"
  by (cases d) (simp_all add: reducer_reduce2)

lemma two_level_pair_lookup: "two_level_table (pair_lookup lookup) = one_level_table lookup"
proof
  fix c
  show "two_level_table (pair_lookup lookup) c = one_level_table lookup c"
    by (cases "lookup c")
       (simp_all add: two_level_table_def pair_lookup_def one_level_table_def feature_value_def)
qed

lemma code_table_lookup2: "code_table d = two_level_table (lookup2 d)"
  by (cases d) (simp_all add: two_level_pair_lookup)

lemma lookup2_dom: "lookup2 d c = None \<longleftrightarrow> \<not> valid_code (class_of d) c"
  using code_table_dom [of d c] by (simp add: code_table_lookup2 two_level_table_None)

lemma conPlace_sub: "conPlace_lookup x = Some (p, s) \<Longrightarrow> s \<noteq> '''' \<Longrightarrow> p = ''Labial''"
  by (auto simp: conPlace_lookup_def split: if_splits)

lemma conManner_sub: "conManner_lookup x = Some (p, s) \<Longrightarrow> s \<noteq> '''' \<Longrightarrow> p = ''Nasal''"
  by (auto simp: conManner_lookup_def split: if_splits)

lemma vowDiphthong_sub: "vowDiphthong_lookup x = Some (p, s) \<Longrightarrow> s \<noteq> '''' \<Longrightarrow> p = ''Diphthong''"
  by (auto simp: vowDiphthong_lookup_def split: if_splits)

lemma pair_lookup_sub: "pair_lookup lookup x = Some (p, s) \<Longrightarrow> s = ''''"
  by (auto simp: pair_lookup_def)

lemma lookup2_coherent:
  "lookup2 d x = Some (p, s) \<Longrightarrow> lookup2 d y = Some (p', s') \<Longrightarrow>
   s \<noteq> '''' \<Longrightarrow> s' \<noteq> '''' \<Longrightarrow> p = p'"
  by (cases d)
     (auto dest: conPlace_sub conManner_sub vowDiphthong_sub pair_lookup_sub)

lemma reducer_generic:
  "reducer d (c # cs) = generic_reduce (code_table d) c cs \<or>
   (reducer d (c # cs) = Inl NoCommonFeature \<and>
    generic_reduce (code_table d) c cs = Inl OutOfRangeCode)"
  unfolding reducer_lookup2 code_table_lookup2
  by (rule reduce2_generic) (rule lookup2_coherent)

lemma fold_values_not_out_of_range: "fold_values v vs \<noteq> Inl OutOfRangeCode"
  by (induction vs arbitrary: v) (auto split: option.splits)

lemma generic_reduce_out_of_range:
  "generic_reduce t c cs = Inl OutOfRangeCode \<longleftrightarrow> (\<exists>x\<in>set (c # cs). t x = None)"
proof (cases "t c")
  case None
  then show ?thesis by (simp add: generic_reduce_def)
next
  case (Some v)
  show ?thesis
  proof (cases "map_codes t cs")
    case None
    with Some map_codes_None [of t cs] show ?thesis by (simp add: generic_reduce_def)
  next
    case (Some vs)
    with \<open>t c = Some v\<close> map_codes_None [of t cs] fold_values_not_out_of_range [of v vs]
    show ?thesis by (simp add: generic_reduce_def)
  qed
qed

lemma dimensions_of_class: "d \<in> set (dimensions_of cls) \<Longrightarrow> class_of d = cls"
  by (cases cls) auto

lemma reducer_invalid_prefix:
  assumes "\<not> list_all (valid_code (class_of d)) codes"
  shows "reducer d codes =
     (case reducer d (takeWhile (valid_code (class_of d)) codes) of
        Inr label \<Rightarrow> Inl OutOfRangeCode | Inl e \<Rightarrow> Inl e)"
proof -
  from assms have "\<exists>x\<in>set codes. lookup2 d x = None"
    by (simp add: lookup2_dom list_all_iff)
  from reduce2_invalid_prefix [OF this]
  have "reduce2 (lookup2 d) codes =
     (case reduce2 (lookup2 d) (takeWhile (\<lambda>x. lookup2 d x \<noteq> None) codes) of
        Inr l \<Rightarrow> Inl OutOfRangeCode | Inl e \<Rightarrow> Inl e)" .
  moreover have "(\<lambda>x. lookup2 d x \<noteq> None) = valid_code (class_of d)"
    by (rule ext) (simp add: lookup2_dom)
  ultimately show ?thesis by (simp add: reducer_lookup2)
qed

lemma report_failure: "r = Inl e \<Longrightarrow> report c r = []"
  by (simp add: report_def)

section \<open>The order of the codes\<close>

lemma steady2_same_primary:
  "\<forall>x\<in>set xs. \<exists>s. lookup x = Some (fst st, s) \<Longrightarrow> steady2 lookup xs st = Inr (fst st)"
proof (induction xs arbitrary: st)
  case Nil
  show ?case by simp
next
  case (Cons x xs)
  from Cons.prems obtain s where x: "lookup x = Some (fst st, s)" by auto
  have c: "compare2 st (fst st, s) = Some (fst st, '''')" by (simp add: compare2_def)
  from Cons.prems have "\<forall>y\<in>set xs. \<exists>s. lookup y = Some (fst (fst st, ''''), s)" by simp
  from Cons.IH [OF this] x c show ?case by simp
qed

lemma reduce2_same_primary:
  assumes "xs \<noteq> []" and "\<forall>x\<in>set xs. \<exists>s. lookup x = Some (P, s)"
  shows "reduce2 lookup xs = Inr P"
proof -
  from assms(1) obtain c cs where xs: "xs = c # cs" by (cases xs) auto
  with assms(2) obtain s where c: "lookup c = Some (P, s)" by auto
  from assms(2) xs have "\<forall>x\<in>set cs. \<exists>s'. lookup x = Some (fst (P, s), s')" by simp
  from steady2_same_primary [OF this] c xs show ?thesis by (simp add: reduce2_def)
qed

lemma compare2_covers:
  "compare2 prev cur = Some st \<Longrightarrow> covers (fst st) prev \<and> covers (fst st) cur"
  by (auto simp: compare2_def covers_def split: if_splits)

lemma compare2_plain:
  "snd prev = '''' \<Longrightarrow> compare2 prev cur = Some st \<Longrightarrow> fst st = fst prev"
  by (auto simp: compare2_def split: if_splits)

lemma steady2_covers:
  "snd st = '''' \<Longrightarrow> steady2 lookup xs st = Inr X \<Longrightarrow>
   X = fst st \<and> (\<forall>x\<in>set xs. \<exists>v. lookup x = Some v \<and> covers X v)"
proof (induction xs arbitrary: st)
  case Nil
  then show ?case by simp
next
  case (Cons x xs)
  from Cons.prems(2) obtain cur where cur: "lookup x = Some cur"
    by (cases "lookup x") auto
  with Cons.prems(2) obtain st' where st': "compare2 st cur = Some st'"
    by (cases "compare2 st cur") auto
  with cur Cons.prems(2) have run: "steady2 lookup xs st' = Inr X" by simp
  have "snd st' = ''''" using st' by (rule compare2_snd)
  from Cons.IH [OF this run]
  have X: "X = fst st'" and rest: "\<forall>y\<in>set xs. \<exists>v. lookup y = Some v \<and> covers X v" by auto
  from compare2_plain [OF Cons.prems(1) st'] X have "X = fst st" by simp
  moreover from compare2_covers [OF st'] X have "covers X cur" by simp
  ultimately show ?case using cur rest by (cases cur) auto
qed

lemma reduce2_covers:
  assumes "reduce2 lookup xs = Inr X" and "xs \<noteq> []"
  shows "\<forall>x\<in>set xs. \<exists>v. lookup x = Some v \<and> covers X v"
proof -
  from assms(2) obtain c cs where xs: "xs = c # cs" by (cases xs) auto
  with assms(1) obtain first where first: "lookup c = Some first"
    by (cases "lookup c") (auto simp: reduce2_def)
  with assms(1) xs have run: "steady2 lookup cs first = Inr X" by (simp add: reduce2_def)
  show ?thesis
  proof (cases cs)
    case Nil
    with run first xs show ?thesis by (simp add: covers_def)
  next
    case (Cons x rest)
    with run obtain cur where cur: "lookup x = Some cur"
      by (cases "lookup x") auto
    with run Cons obtain st where st: "compare2 first cur = Some st"
      by (cases "compare2 first cur") auto
    with run Cons cur have run': "steady2 lookup rest st = Inr X" by simp
    have "snd st = ''''" using st by (rule compare2_snd)
    from steady2_covers [OF this run']
    have X: "X = fst st" and tail: "\<forall>y\<in>set rest. \<exists>v. lookup y = Some v \<and> covers X v"
      by auto
    from compare2_covers [OF st] X have "covers X first" "covers X cur" by simp_all
    with first cur tail xs Cons show ?thesis by (cases first; cases cur) auto
  qed
qed

lemma reduce2_Nil: "reduce2 lookup [] = Inr ''''"
  by (simp add: reduce2_def)

lemma reduce2_label_unique:
  assumes coh: "\<And>x y p s p' s'. lookup x = Some (p, s) \<Longrightarrow> lookup y = Some (p', s') \<Longrightarrow>
                  s \<noteq> '''' \<Longrightarrow> s' \<noteq> '''' \<Longrightarrow> p = p'"
    and same: "set xs = set ys" and ne: "xs \<noteq> []"
    and X: "reduce2 lookup xs = Inr X" and Y: "reduce2 lookup ys = Inr Y"
  shows "X = Y"
proof (rule ccontr)
  assume diff: "X \<noteq> Y"
  from same ne have ne': "ys \<noteq> []" by auto
  have cx: "\<forall>x\<in>set xs. \<exists>v. lookup x = Some v \<and> covers X v"
    using reduce2_covers [OF X ne] .
  have cy: "\<forall>x\<in>set xs. \<exists>v. lookup x = Some v \<and> covers Y v"
    using reduce2_covers [OF Y ne'] same by simp
  have both: "\<forall>x\<in>set xs. \<exists>p s. lookup x = Some (p, s) \<and> s \<noteq> ''''"
  proof
    fix x assume x: "x \<in> set xs"
    with cx obtain v where v: "lookup x = Some v" "covers X v" by blast
    with cy x have "covers Y v" by auto
    with v(2) diff have "snd v \<noteq> ''''" by (auto simp: covers_def)
    with v(1) show "\<exists>p s. lookup x = Some (p, s) \<and> s \<noteq> ''''" by (cases v) auto
  qed
  from ne obtain x0 where x0: "x0 \<in> set xs" by (cases xs) auto
  with both obtain P s0 where P: "lookup x0 = Some (P, s0)" "s0 \<noteq> ''''" by blast
  have all: "\<forall>x\<in>set xs. \<exists>s. lookup x = Some (P, s)"
  proof
    fix x assume "x \<in> set xs"
    with both obtain p s where ps: "lookup x = Some (p, s)" "s \<noteq> ''''" by blast
    from coh [OF ps(1) P(1) ps(2) P(2)] ps(1) show "\<exists>s. lookup x = Some (P, s)" by simp
  qed
  from reduce2_same_primary [OF ne all] X have "X = P" by simp
  moreover from reduce2_same_primary [OF ne'] all same Y have "Y = P" by simp
  ultimately show False using diff by simp
qed

lemma reduce2_flat:
  assumes coh: "\<And>x y p s p' s'. lookup x = Some (p, s) \<Longrightarrow> lookup y = Some (p', s') \<Longrightarrow>
                  s \<noteq> '''' \<Longrightarrow> s' \<noteq> '''' \<Longrightarrow> p = p'"
    and flat: "\<And>x y p s p' s'. lookup x = Some (p, s) \<Longrightarrow> lookup y = Some (p', s') \<Longrightarrow>
                  s \<noteq> '''' \<Longrightarrow> s \<noteq> p'"
    and ne: "xs \<noteq> []"
  shows "reduce2 lookup xs = Inr X \<longleftrightarrow> (\<forall>x\<in>set xs. \<exists>s. lookup x = Some (X, s))"
proof
  assume "\<forall>x\<in>set xs. \<exists>s. lookup x = Some (X, s)"
  with ne show "reduce2 lookup xs = Inr X" by (rule reduce2_same_primary)
next
  assume X: "reduce2 lookup xs = Inr X"
  have cx: "\<forall>x\<in>set xs. \<exists>v. lookup x = Some v \<and> covers X v"
    using reduce2_covers [OF X ne] .
  show "\<forall>x\<in>set xs. \<exists>s. lookup x = Some (X, s)"
  proof (cases "\<exists>x\<in>set xs. \<exists>s. lookup x = Some (X, s)")
    case True
    then obtain y sy where y: "lookup y = Some (X, sy)" by blast
    show ?thesis
    proof
      fix x assume "x \<in> set xs"
      with cx obtain v where v: "lookup x = Some v" "covers X v" by blast
      obtain p s where ps: "v = (p, s)" by (cases v)
      have "p = X"
      proof (rule ccontr)
        assume "p \<noteq> X"
        with v(2) ps have "s = X" "s \<noteq> ''''" by (auto simp: covers_def)
        with flat [of x p s y X sy] v(1) ps y show False by simp
      qed
      with v(1) ps show "\<exists>s. lookup x = Some (X, s)" by simp
    qed
  next
    case False
    have sec: "\<forall>x\<in>set xs. \<exists>p s. lookup x = Some (p, s) \<and> s \<noteq> ''''"
    proof
      fix x assume x: "x \<in> set xs"
      with cx obtain v where v: "lookup x = Some v" "covers X v" by blast
      obtain p s where ps: "v = (p, s)" by (cases v)
      from False x v(1) ps have "p \<noteq> X" by auto
      with v(2) ps have "s \<noteq> ''''" by (auto simp: covers_def)
      with v(1) ps show "\<exists>p s. lookup x = Some (p, s) \<and> s \<noteq> ''''" by simp
    qed
    from ne obtain x0 where x0: "x0 \<in> set xs" by (cases xs) auto
    with sec obtain P s0 where P: "lookup x0 = Some (P, s0)" "s0 \<noteq> ''''" by blast
    have all: "\<forall>x\<in>set xs. \<exists>s. lookup x = Some (P, s)"
    proof
      fix x assume "x \<in> set xs"
      with sec obtain p s where ps: "lookup x = Some (p, s)" "s \<noteq> ''''" by blast
      from coh [OF ps(1) P(1) ps(2) P(2)] ps(1) show "\<exists>s. lookup x = Some (P, s)" by simp
    qed
    from reduce2_same_primary [OF ne all] X have "X = P" by simp
    with all show ?thesis by simp
  qed
qed

lemma vowDiphthong_flat:
  "vowDiphthong_lookup x = Some (p, s) \<Longrightarrow> vowDiphthong_lookup y = Some (p', s') \<Longrightarrow>
   s \<noteq> '''' \<Longrightarrow> s \<noteq> p'"
  by (auto simp: vowDiphthong_lookup_def split: if_splits)

lemma lookup2_flat:
  assumes "d \<noteq> PlaceOfArticulation" and "d \<noteq> MannerOfArticulation"
    and "lookup2 d x = Some (p, s)" and "lookup2 d y = Some (p', s')" and "s \<noteq> ''''"
  shows "s \<noteq> p'"
  using assms by (cases d) (auto dest: pair_lookup_sub vowDiphthong_flat)

lemma reducer_label_unique:
  assumes "mset xs = mset ys" and "reducer d xs = Inr a" and "reducer d ys = Inr b"
  shows "a = b"
proof (cases "xs = []")
  case True
  with assms(1) have "ys = []" by simp
  with True assms(2,3) show ?thesis by (simp add: reducer_lookup2 reduce2_Nil)
next
  case False
  from assms(1) have "set xs = set ys" by (rule mset_eq_setD)
  from reduce2_label_unique [of "lookup2 d", OF _ this False] lookup2_coherent [of d] assms(2,3)
  show ?thesis unfolding reducer_lookup2 by blast
qed

lemma reducer_order_flat:
  assumes "mset xs = mset ys" and "d \<noteq> PlaceOfArticulation" and "d \<noteq> MannerOfArticulation"
  shows "reducer d xs = Inr a \<longleftrightarrow> reducer d ys = Inr a"
proof (cases "xs = []")
  case True
  with assms(1) have "ys = []" by simp
  with True show ?thesis by simp
next
  case False
  from assms(1) have same: "set xs = set ys" by (rule mset_eq_setD)
  with False have ne': "ys \<noteq> []" by auto
  have fx: "reduce2 (lookup2 d) xs = Inr a \<longleftrightarrow> (\<forall>x\<in>set xs. \<exists>s. lookup2 d x = Some (a, s))"
    by (rule reduce2_flat [OF lookup2_coherent lookup2_flat [OF assms(2,3)] False])
  have fy: "reduce2 (lookup2 d) ys = Inr a \<longleftrightarrow> (\<forall>x\<in>set ys. \<exists>s. lookup2 d x = Some (a, s))"
    by (rule reduce2_flat [OF lookup2_coherent lookup2_flat [OF assms(2,3)] ne'])
  from fx fy same show ?thesis by (simp add: reducer_lookup2)
qed

section \<open>Order-dependent instances and the cells the input loop leaves alone\<close>

lemma place_order_dependent:
  "mset [23, 20, 23] = mset [23, 23, 20 :: int] \<and>
   reducer PlaceOfArticulation [23, 23] = Inr ''Labial'' \<and>
   reducer PlaceOfArticulation [23, 20] = Inr ''Velar'' \<and>
   reducer PlaceOfArticulation [20, 23] = Inr ''Velar'' \<and>
   reducer PlaceOfArticulation [23, 20, 23] = Inr ''Velar'' \<and>
   reducer PlaceOfArticulation [23, 23, 20] = Inl NoCommonFeature"
  by (simp add: conPlaceArticulation_def conPlace_lookup_def)

lemma manner_order_dependent:
  "mset [3, 1, 10] = mset [3, 10, 1 :: int] \<and>
   reducer MannerOfArticulation [3, 1] = Inr ''Stop'' \<and>
   reducer MannerOfArticulation [1, 3] = Inr ''Stop'' \<and>
   reducer MannerOfArticulation [3, 10] = Inr ''Nasal'' \<and>
   reducer MannerOfArticulation [10, 3] = Inr ''Nasal'' \<and>
   reducer MannerOfArticulation [1, 10] = Inr ''Stop'' \<and>
   reducer MannerOfArticulation [10, 1] = Inr ''Stop'' \<and>
   reducer MannerOfArticulation [3, 1, 10] = Inr ''Stop'' \<and>
   reducer MannerOfArticulation [3, 10, 1] = Inl NoCommonFeature"
  by (simp add: conMannerArticulation_def conManner_lookup_def)

lemma read_codes_keeps:
  "read_codes entered num i intArray = Inr arr \<Longrightarrow> num \<le> int k \<Longrightarrow> arr ! k = intArray ! k"
proof (induction entered num i intArray rule: read_codes.induct)
  case (1 entered num i intArray)
  show ?case
  proof (cases "int i < num")
    case False
    with "1.prems"(1) show ?thesis by (simp add: read_codes.simps [of entered num i intArray])
  next
    case True
    show ?thesis
    proof (cases "i < length intArray")
      case False
      with True "1.prems"(1) show ?thesis
        by (simp add: read_codes.simps [of entered num i intArray])
    next
      case inb: True
      with True "1.prems"(1)
      have r: "read_codes entered num (i + 1) (intArray[i := entered i]) = Inr arr"
        by (simp add: read_codes.simps [of entered num i intArray])
      from True "1.prems"(2) have "k \<noteq> i" by auto
      with "1.IH" [OF True inb r "1.prems"(2)] show ?thesis by simp
    qed
  qed
qed

section \<open>The claims\<close>

text \<open>
  Claim C1, as the program has it. On every non-empty code sequence each of the eight
  functions agrees with the generic two-level reduction of section 4.2 over its own table,
  except in the kind of failure when an out-of-range code follows a failed comparison: the
  function looks codes up one at a time and stops at the failed comparison, where step 1
  of the generic reduction has already reported the out-of-range code. So the two agree on
  whether a label is reported and on the label, and agree outright when every code is in
  range.
\<close>

theorem reducer_refines_generic_reduce:
  "(reducer d (c # cs) = generic_reduce (code_table d) c cs \<or>
    (reducer d (c # cs) = Inl NoCommonFeature \<and>
     generic_reduce (code_table d) c cs = Inl OutOfRangeCode)) \<and>
   (reducer d (c # cs) = Inr label \<longleftrightarrow> generic_reduce (code_table d) c cs = Inr label) \<and>
   (list_all (valid_code (class_of d)) (c # cs) \<longrightarrow>
      reducer d (c # cs) = generic_reduce (code_table d) c cs)"
proof (intro conjI impI)
  show either: "reducer d (c # cs) = generic_reduce (code_table d) c cs \<or>
    (reducer d (c # cs) = Inl NoCommonFeature \<and>
     generic_reduce (code_table d) c cs = Inl OutOfRangeCode)"
    by (rule reducer_generic)
  then show "reducer d (c # cs) = Inr label \<longleftrightarrow> generic_reduce (code_table d) c cs = Inr label"
    by auto
  assume "list_all (valid_code (class_of d)) (c # cs)"
  then have "\<not> (\<exists>x\<in>set (c # cs). code_table d x = None)"
    by (simp add: code_table_dom list_all_iff)
  then have "generic_reduce (code_table d) c cs \<noteq> Inl OutOfRangeCode"
    by (simp only: generic_reduce_out_of_range not_False_eq_True)
  with either show "reducer d (c # cs) = generic_reduce (code_table d) c cs" by blast
qed

theorem reducer_refines_generic_reduce_witness:
  "list_all (valid_code (class_of MannerOfArticulation)) [3, 1, 10] \<and>
   reducer MannerOfArticulation [3, 1, 10] = Inr ''Stop'' \<and>
   generic_reduce (code_table MannerOfArticulation) 3 [1, 10] = Inr ''Stop''"
  using reducer_refines_generic_reduce [of MannerOfArticulation 3 "[1, 10]"]
  by (simp add: conMannerArticulation_def conManner_lookup_def)

text \<open>Voicing on \<open>[1, 2, 99]\<close>: the function stops at the mismatch of codes 1 and 2 and
  never reads 99; the generic reduction maps all codes first.\<close>

theorem eager_lookup_counterexample:
  "conVoicing (1 # [2, 99]) = Inl NoCommonFeature \<and>
   generic_reduce (code_table Voicing) 1 [2, 99] = Inl OutOfRangeCode"
  by (simp add: conVoicing_def conVoicing_lookup_def generic_reduce_def one_level_table_def)

text \<open>
  Claim C2, as the program has it. For every dimension and any two orderings of the same
  multiset of codes (in particular of codes that agree pairwise): if both orderings
  resolve, they report the same label; and for every dimension other than place and manner
  of articulation one ordering resolves to a label exactly when the other does. For place
  and for manner the order can decide whether the reduction resolves at all, because the
  running sub-label is dropped after the first comparison: the place codes 23, 20, 23 and
  the manner codes 3, 1, 10 agree pairwise, resolve in one order and fail in another.
\<close>

theorem reduction_order_same_label:
  "mset xs = mset ys \<Longrightarrow>
   (reducer d xs = Inr a \<longrightarrow> reducer d ys = Inr b \<longrightarrow> a = b) \<and>
   (d \<noteq> PlaceOfArticulation \<longrightarrow> d \<noteq> MannerOfArticulation \<longrightarrow>
      (reducer d xs = Inr a \<longleftrightarrow> reducer d ys = Inr a)) \<and>
   (mset [23, 20, 23] = mset [23, 23, 20 :: int] \<and>
    reducer PlaceOfArticulation [23, 23] = Inr ''Labial'' \<and>
    reducer PlaceOfArticulation [23, 20] = Inr ''Velar'' \<and>
    reducer PlaceOfArticulation [20, 23] = Inr ''Velar'' \<and>
    reducer PlaceOfArticulation [23, 20, 23] = Inr ''Velar'' \<and>
    reducer PlaceOfArticulation [23, 23, 20] = Inl NoCommonFeature) \<and>
   (mset [3, 1, 10] = mset [3, 10, 1 :: int] \<and>
    reducer MannerOfArticulation [3, 1] = Inr ''Stop'' \<and>
    reducer MannerOfArticulation [1, 3] = Inr ''Stop'' \<and>
    reducer MannerOfArticulation [3, 10] = Inr ''Nasal'' \<and>
    reducer MannerOfArticulation [10, 3] = Inr ''Nasal'' \<and>
    reducer MannerOfArticulation [1, 10] = Inr ''Stop'' \<and>
    reducer MannerOfArticulation [10, 1] = Inr ''Stop'' \<and>
    reducer MannerOfArticulation [3, 1, 10] = Inr ''Stop'' \<and>
    reducer MannerOfArticulation [3, 10, 1] = Inl NoCommonFeature)"
proof (intro conjI)
  assume same: "mset xs = mset ys"
  show "reducer d xs = Inr a \<longrightarrow> reducer d ys = Inr b \<longrightarrow> a = b"
    using reducer_label_unique [OF same, of d a b] by blast
  show "d \<noteq> PlaceOfArticulation \<longrightarrow> d \<noteq> MannerOfArticulation \<longrightarrow>
      (reducer d xs = Inr a \<longleftrightarrow> reducer d ys = Inr a)"
    using reducer_order_flat [OF same, of d a] by blast
qed (simp_all only: place_order_dependent manner_order_dependent)

theorem reduction_order_same_label_witness:
  "mset [3, 1, 10] = mset [1, 10, 3 :: int] \<and>
   reducer MannerOfArticulation [3, 1, 10] = Inr ''Stop'' \<and>
   reducer MannerOfArticulation [1, 10, 3] = Inr ''Stop''"
  using reduction_order_same_label [of "[3, 1, 10]" "[1, 10, 3]" MannerOfArticulation "''Stop''" "''Stop''"]
  by (simp add: conMannerArticulation_def conManner_lookup_def)

text \<open>Manner of articulation on the codes 3, 1, 10 (m, p, n): every pair resolves in both
  orders, \<open>[3, 1, 10]\<close> resolves to \<open>Stop\<close>, and \<open>[3, 10, 1]\<close> fails: after 3 and 10 agree
  on \<open>Nasal\<close> their sub-label \<open>Stop\<close> is gone when 1 arrives.\<close>

theorem manner_order_counterexample:
  "mset [3, 1, 10] = mset [3, 10, 1 :: int] \<and>
   conMannerArticulation [3, 1] = Inr ''Stop'' \<and> conMannerArticulation [1, 3] = Inr ''Stop'' \<and>
   conMannerArticulation [3, 10] = Inr ''Nasal'' \<and> conMannerArticulation [10, 3] = Inr ''Nasal'' \<and>
   conMannerArticulation [1, 10] = Inr ''Stop'' \<and> conMannerArticulation [10, 1] = Inr ''Stop'' \<and>
   conMannerArticulation [3, 1, 10] = Inr ''Stop'' \<and>
   conMannerArticulation [3, 10, 1] = Inl NoCommonFeature"
  by (simp add: conMannerArticulation_def conManner_lookup_def)

text \<open>
  Claim C3. For every dimension and every code, the program's table assigns the primary and
  secondary labels that section 4.1 of the specification lists (label names compared
  without blanks, as the specification writes them), and a code has an entry exactly when
  it lies in the range of its class: 1 to 25 for the consonant dimensions, 1 to 15 for the
  vowel dimensions.
\<close>

theorem feature_tables_as_listed:
  "map_option squash_value (code_table d c) = spec_table d c \<and>
   (code_table d c \<noteq> None \<longleftrightarrow> valid_code (class_of d) c)"
proof
  show "map_option squash_value (code_table d c) = spec_table d c"
    by (cases d)
       (simp_all only: spec_place spec_manner spec_voicing spec_height spec_backness
          spec_tenseness spec_roundedness spec_diphthong)
  show "code_table d c \<noteq> None \<longleftrightarrow> valid_code (class_of d) c"
    by (simp add: code_table_dom)
qed

text \<open>
  Claim C4. A sequence of one code that is valid for the class resolves in every dimension
  of the class, and the label reported is the primary label of the code's table entry.
\<close>

theorem single_code_resolves_to_primary:
  "valid_code (class_of d) c \<Longrightarrow> \<exists>v. code_table d c = Some v \<and> reducer d [c] = Inr (fst v)"
proof -
  assume "valid_code (class_of d) c"
  then have "code_table d c \<noteq> None" by (simp add: code_table_dom)
  then obtain v where v: "code_table d c = Some v" by blast
  with reducer_single [OF v] show ?thesis by blast
qed

theorem single_code_resolves_to_primary_witness:
  "valid_code (class_of DiphthongStatus) 5 \<and>
   code_table DiphthongStatus 5 = Some (''Diphthong'', Some ''Minor Diphthong'') \<and>
   reducer DiphthongStatus [5] = Inr ''Diphthong''"
  using single_code_resolves_to_primary [of DiphthongStatus 5]
  by (simp add: two_level_table_def vowDiphthong_lookup_def feature_value_def)

text \<open>
  Claim C5, as the program has it. A sequence with a code outside the range of the class
  yields no label in any dimension of the class: each dimension stops on its own, with the
  out-of-range return if the codes before the first out-of-range code reduce without
  failure, and otherwise at the failed comparison before it. \<^verbatim>\<open>main\<close> still runs every
  dimension and reaches its end line.
\<close>

theorem out_of_range_code_gives_no_label:
  "\<not> list_all (valid_code cls) codes \<Longrightarrow>
   (\<forall>d\<in>set (dimensions_of cls).
      reducer d codes =
        (case reducer d (takeWhile (valid_code cls) codes) of
           Inr label \<Rightarrow> Inl OutOfRangeCode | Inl e \<Rightarrow> Inl e)) \<and>
   (\<forall>consonantVowel. selector_class consonantVowel = Some cls \<longrightarrow>
      run_selected consonantVowel codes = [''========END========''])"
proof (intro conjI ballI allI impI)
  assume bad: "\<not> list_all (valid_code cls) codes"
  {
    fix d assume "d \<in> set (dimensions_of cls)"
    then have "class_of d = cls" by (rule dimensions_of_class)
    with bad reducer_invalid_prefix [of d codes]
    show "reducer d codes =
        (case reducer d (takeWhile (valid_code cls) codes) of
           Inr label \<Rightarrow> Inl OutOfRangeCode | Inl e \<Rightarrow> Inl e)" by simp
  } note each = this
  fix consonantVowel assume sel: "selector_class consonantVowel = Some cls"
  have "\<And>d. d \<in> set (dimensions_of cls) \<Longrightarrow> report (caption d) (reducer d codes) = []"
  proof -
    fix d assume "d \<in> set (dimensions_of cls)"
    from each [OF this] obtain e where "reducer d codes = Inl e"
      by (auto split: sum.splits)
    then show "report (caption d) (reducer d codes) = []" by (rule report_failure)
  qed
  then show "run_selected consonantVowel codes = [''========END========'']"
    unfolding run_selected_concat [OF sel] by simp
qed

theorem out_of_range_code_gives_no_label_witness:
  "\<not> list_all (valid_code Consonant) [1, 2, 0] \<and>
   reducer PlaceOfArticulation [1, 2, 0] = Inl OutOfRangeCode \<and>
   reducer MannerOfArticulation [1, 2, 0] = Inl OutOfRangeCode \<and>
   reducer Voicing [1, 2, 0] = Inl NoCommonFeature \<and>
   run_selected 0 [1, 2, 0] = [''========END========'']"
  using out_of_range_code_gives_no_label [of Consonant "[1, 2, 0]"]
  by (simp add: selector_class_def conPlaceArticulation_def conPlace_lookup_def
      conMannerArticulation_def conManner_lookup_def conVoicing_def conVoicing_lookup_def)

text \<open>Place of articulation on \<open>[1, 6, 0]\<close>: codes 1 and 6 already disagree, so the
  function returns before it reaches the out-of-range code 0.\<close>

theorem mismatch_before_out_of_range_counterexample:
  "\<not> valid_code Consonant 0 \<and> conPlaceArticulation [1, 6, 0] = Inl NoCommonFeature"
  by (simp add: conPlaceArticulation_def conPlace_lookup_def)

text \<open>
  Claim C6. For the vowel codes \<open>[5, 9]\<close> the diphthong function resolves and reports
  the broad label \<open>Diphthong\<close>, not the shared sub-label \<open>Minor Diphthong\<close>.
\<close>

theorem vowDiphthong_minor_pair_reports_broad_label:
  "vowDiphthong [5, 9] = Inr ''Diphthong'' \<and> vowDiphthong [5, 9] \<noteq> Inr ''Minor Diphthong''"
  by (simp add: vowDiphthong_def vowDiphthong_lookup_def)

text \<open>
  Claim C7. For a valid selector, \<^verbatim>\<open>main\<close> calls the function of every dimension of the
  selected class once, in order, on the same codes (three for consonants, five for vowels):
  its output is the concatenation of what each dimension reports on its own, then the end
  line. A dimension's line is printed exactly when that dimension resolves, whatever the
  others do.
\<close>

theorem dispatcher_runs_each_dimension_once:
  "selector_class consonantVowel = Some cls \<Longrightarrow>
   run_selected consonantVowel codes =
     concat (map (\<lambda>d. report (caption d) (reducer d codes)) (dimensions_of cls)) @
     [''========END========''] \<and>
   length (dimensions_of cls) = (case cls of Consonant \<Rightarrow> 3 | Vowel \<Rightarrow> 5) \<and>
   distinct (dimensions_of cls) \<and>
   (\<forall>d\<in>set (dimensions_of cls). \<forall>label.
      caption d @ label \<in> set (run_selected consonantVowel codes) \<longleftrightarrow>
      reducer d codes = Inr label)"
proof (intro conjI ballI allI)
  assume sel: "selector_class consonantVowel = Some cls"
  show "run_selected consonantVowel codes =
     concat (map (\<lambda>d. report (caption d) (reducer d codes)) (dimensions_of cls)) @
     [''========END========'']"
    by (rule run_selected_concat [OF sel])
  show "length (dimensions_of cls) = (case cls of Consonant \<Rightarrow> 3 | Vowel \<Rightarrow> 5)"
    by (cases cls) simp_all
  show "distinct (dimensions_of cls)"
    by (cases cls) simp_all
  fix d label
  assume "d \<in> set (dimensions_of cls)"
  then show "caption d @ label \<in> set (run_selected consonantVowel codes) \<longleftrightarrow>
      reducer d codes = Inr label"
    by (rule run_selected_line [OF sel])
qed

theorem dispatcher_runs_each_dimension_once_witness:
  "selector_class 0 = Some Consonant \<and>
   run_selected 0 [1, 2] =
     [''The common place of articulation is: Labial'',
      ''The common manner of articulation is: Stop'',
      ''========END========''] \<and>
   reducer Voicing [1, 2] = Inl NoCommonFeature"
  using dispatcher_runs_each_dimension_once [of 0 Consonant "[1, 2]"]
  by (simp add: selector_class_def report_def conPlaceArticulation_def conPlace_lookup_def
      conMannerArticulation_def conManner_lookup_def conVoicing_def conVoicing_lookup_def)

text \<open>
  Claim C8. For a selector other than 0 and 1, \<^verbatim>\<open>main\<close> prints \<open>Invalid Input\<close> and
  nothing else: no function of any dimension is called and no dimension line is
  printed.
\<close>

theorem invalid_selector_runs_nothing:
  "consonantVowel \<noteq> 0 \<Longrightarrow> consonantVowel \<noteq> 1 \<Longrightarrow>
   selector_class consonantVowel = None \<and>
   run_selected consonantVowel codes = [''Invalid Input''] \<and>
   (\<forall>d label. caption d @ label \<notin> set (run_selected consonantVowel codes)) \<and>
   (length intArray = 7 \<longrightarrow> num \<le> 7 \<longrightarrow>
      main intArray num entered consonantVowel = Inr [''Invalid Input''])"
proof (intro conjI impI)
  assume sel: "consonantVowel \<noteq> 0" "consonantVowel \<noteq> 1"
  then show "selector_class consonantVowel = None"
    by (simp add: selector_class_def)
  from sel show inv: "\<And>codes. run_selected consonantVowel codes = [''Invalid Input'']"
    by (simp add: run_selected_def)
  from sel show "\<forall>d label. caption d @ label \<notin> set (run_selected consonantVowel codes)"
    by (simp add: run_selected_def caption_not_invalid)
  assume "length intArray = 7" "num \<le> 7"
  then have "num \<le> int (length intArray)" by simp
  then have "\<exists>arr. read_codes entered num 0 intArray = Inr arr \<and> length arr = length intArray \<and>
     (\<forall>k. k < 0 \<longrightarrow> arr ! k = intArray ! k) \<and>
     (\<forall>k. 0 \<le> k \<and> int k < num \<longrightarrow> arr ! k = entered k)"
    by (rule read_codes_fits)
  then obtain arr where "read_codes entered num 0 intArray = Inr arr"
    by (elim exE conjE)
  then show "main intArray num entered consonantVowel = Inr [''Invalid Input'']"
    by (simp add: main_def inv)
qed

theorem invalid_selector_runs_nothing_witness:
  "(2::int) \<noteq> 0 \<and> (2::int) \<noteq> 1 \<and> selector_class 2 = None \<and>
   run_selected 2 [1, 2] = [''Invalid Input''] \<and>
   main [0, 0, 0, 0, 0, 0, 0] 2 (\<lambda>i. int i + 1) 2 = Inr [''Invalid Input'']"
  using invalid_selector_runs_nothing [of 2 "[1, 2]" "[0, 0, 0, 0, 0, 0, 0]" 2 "\<lambda>i. int i + 1"]
  by simp

text \<open>
  Claim C9, as the program has it. The input loop has no cap of its own. With the
  7-element array, a count of at most 7 keeps every store inside the array: the first
  \<open>num\<close> cells hold the codes entered and the remaining cells are left as they were (for
  a count of 0 or less nothing is stored). A count above 7 makes the loop store at index
  7, outside the array.
\<close>

theorem input_loop_in_bounds_up_to_seven:
  "length intArray = 7 \<Longrightarrow>
   (num \<le> 7 \<longrightarrow>
      (\<exists>arr. read_codes entered num 0 intArray = Inr arr \<and> length arr = 7 \<and>
             take (nat num) arr = map entered [0..<nat num] \<and>
             drop (nat num) arr = drop (nat num) intArray)) \<and>
   (7 < num \<longrightarrow> read_codes entered num 0 intArray = Inl (WriteOutOfBounds 7))"
proof (intro conjI impI)
  assume len: "length intArray = 7"
  {
    assume le: "num \<le> 7"
    with len have "num \<le> int (length intArray)" by simp
    from read_codes_fits [OF this, of entered 0] len obtain arr where
      r: "read_codes entered num 0 intArray = Inr arr" and l: "length arr = 7"
      and v: "\<forall>k. int k < num \<longrightarrow> arr ! k = entered k"
      by auto
    have "take (nat num) arr = map entered [0..<nat num]"
    proof (rule nth_equalityI)
      show "length (take (nat num) arr) = length (map entered [0..<nat num])"
        using l le by simp
    next
      fix k assume "k < length (take (nat num) arr)"
      then have k: "k < nat num" by simp
      then have "int k < num" by linarith
      with v k show "take (nat num) arr ! k = map entered [0..<nat num] ! k" by simp
    qed
    moreover have "drop (nat num) arr = drop (nat num) intArray"
    proof (rule nth_equalityI)
      show "length (drop (nat num) arr) = length (drop (nat num) intArray)"
        using l len by simp
    next
      fix k assume k: "k < length (drop (nat num) arr)"
      have "num \<le> int (nat num + k)" by linarith
      from read_codes_keeps [OF r this] k l len
      show "drop (nat num) arr ! k = drop (nat num) intArray ! k" by simp
    qed
    ultimately show "\<exists>arr. read_codes entered num 0 intArray = Inr arr \<and> length arr = 7 \<and>
             take (nat num) arr = map entered [0..<nat num] \<and>
             drop (nat num) arr = drop (nat num) intArray" using r l by blast
  }
  {
    assume "7 < num"
    with len read_codes_overflow [of intArray num 0 entered]
    show "read_codes entered num 0 intArray = Inl (WriteOutOfBounds 7)" by simp
  }
qed

theorem input_loop_in_bounds_up_to_seven_witness:
  "length [9, 9, 9, 9, 9, 9, 9 :: int] = 7 \<and> (3 :: int) \<le> 7 \<and>
   read_codes (\<lambda>i. int i + 1) 3 0 [9, 9, 9, 9, 9, 9, 9] = Inr [1, 2, 3, 9, 9, 9, 9]"
  using input_loop_in_bounds_up_to_seven [of "[9, 9, 9, 9, 9, 9, 9]" 3 "\<lambda>i. int i + 1"]
  by (simp add: read_codes.simps)

text \<open>With a count of 8 the eighth store is outside the array.\<close>

theorem input_loop_has_no_cap_counterexample:
  "read_codes (\<lambda>i. 1) 8 0 [0, 0, 0, 0, 0, 0, 0] = Inl (WriteOutOfBounds 7)"
  by (simp add: read_codes.simps)

text \<open>
  Claim C10. On the empty sequence (count 0) each of the eight functions falls through its
  loop and reports the empty string as the common label; with a valid selector \<^verbatim>\<open>main\<close>
  prints one line per dimension of the class, each with an empty label.
\<close>

theorem empty_sequence_reports_empty_label:
  "conPlaceArticulation [] = Inr '''' \<and> conMannerArticulation [] = Inr '''' \<and>
   conVoicing [] = Inr '''' \<and> vowHeight [] = Inr '''' \<and> vowBackness [] = Inr '''' \<and>
   vowTenseness [] = Inr '''' \<and> vowRoundedness [] = Inr '''' \<and> vowDiphthong [] = Inr '''' \<and>
   main intArray 0 entered 0 =
     Inr [''The common place of articulation is: '',
          ''The common manner of articulation is: '',
          ''The common voicing is: '',
          ''========END========''] \<and>
   main intArray 0 entered 1 =
     Inr [''The common height of the tongue is: '',
          ''The common backness of the tongue is: '',
          ''The common tenseness of the vocal tract is: '',
          ''The common roundedness of the lips is: '',
          ''The common simple/complex vowel is: '',
          ''========END========'']"
  by (simp add: main_def run_selected_def report_def conPlaceArticulation_def
      conMannerArticulation_def conVoicing_def vowHeight_def vowBackness_def
      vowTenseness_def vowRoundedness_def vowDiphthong_def)

end
